theory Spec2Isabelle
  imports Complex_Main "HOL-Library.Word"
begin

section \<open>The per-task runner of the node daemon (h\_server/task/task\_runner.py)\<close>

text \<open>
  The runner is asynchronous Python. Its effects are made explicit here:
  \<^item> the task state, the cache entry of the task and a trace of every call to an external
    collaborator (contract client, relay, worker, queue, cache, watcher) are threaded
    through each function;
  \<^item> every answer of a collaborator comes from an environment record whose functions
    read the trace so far, so two calls of the same method may be answered differently;
  \<^item> an exception is a value of type \<open>exc\<close>; a coroutine that returns nothing yields
    \<open>None\<close> when it returns and \<open>Some e\<close> when it raises \<open>e\<close>;
  \<^item> the handlers of one runner are tasks of one task group: each is given twice, as
    the function it computes when it runs on its own, and as a task that is suspended
    at its awaits, where the other tasks take their turns in an order that the
    environment chooses.
  The calls \<open>cache.dump\<close> inside its shielded scope, \<open>queue.ack\<close>, \<open>queue.no_ack\<close>,
  \<open>queue.put\<close> and the watcher calls are taken to return normally, and the budgets of the
  shields never expire: the expiry of a timer other than the deadline of the task is
  not part of this model.
\<close>

subsection \<open>Data model\<close>

type_synonym bytes = "8 word list"

datatype TaskStatus = Pending | Executing | ResultUploaded | Disclosed | Success | Aborted

text \<open>
  Modelled from the spec: the class \<open>models.TaskState\<close> is not among the sources; the
  fields are those of section 3 of the specification, which are also the only ones
  the runner reads or writes. The field \<open>round\<close> is named \<open>round_no\<close> here.
\<close>

record TaskState =
  task_id :: nat
  round_no :: nat
  timeout :: int
  status :: TaskStatus
  result :: bytes
  disclosed :: bool
  files :: "string list"
  waiting_tx_method :: string
  waiting_tx_hash :: bytes

text \<open>
  Modelled from the spec: \<open>models.ChainTask\<close> is not among the sources; the runner reads
  its \<open>id\<close> and its \<open>timeout\<close> only.
\<close>

record ChainTask =
  ct_id :: nat
  ct_timeout :: int

text \<open>
  Modelled from the spec: the event classes are not among the sources. Each event
  carries the task id; \<open>OtherEvent\<close> stands for an event whose \<open>kind\<close> is none of the
  five that \<open>process_event\<close> knows.
\<close>

datatype TaskEvent =
    TaskCreated nat nat
  | TaskResultReady nat "string list" "string list"
  | TaskResultCommitmentsReady nat
  | TaskSuccess nat string
  | TaskAborted nat
  | OtherEvent string nat

datatype exc =
    is_revert: TxRevertedError (reason: string)
  | ValueError string
  | AssertionError
  | TimeoutError
  | Cancelled
  | TaskInvalid
  | RelayError string
  | OtherError string

text \<open>The keyword arguments of a contract call: task id, round, and the byte strings
  that follow (commitment and nonce, or the result, or nothing).\<close>

datatype call_args = CallArgs nat nat "bytes list"

datatype action =
    Submit string call_args
  | WaitReceipt bytes
  | Dump TaskState
  | Ack nat
  | NoAck nat
  | CancelTask nat
  | GetTask nat
  | RelayGetTask nat
  | RunDistributed nat
  | RunLocal nat
  | QueuePut TaskEvent
  | UploadResult nat "string list"
  | Unwatch nat
  | DeleteResultFiles "string list"
  | ShieldEnter nat
  | ShieldExit

text \<open>A turn in the task group: the loop receives the next event and starts its task,
  or the task that handles the event of the given ack id is resumed.\<close>

datatype choice = Receive | Resume nat

text \<open>
  The collaborators. \<open>submit_tx\<close> is the call of one of the four contract functions: it
  returns the transaction hash of the waiter it hands back, or raises. \<open>wait_tx\<close> is
  \<open>waiter.wait()\<close>. \<open>relay_get_task\<close> is the outcome of the retried relay call.
  \<open>make_result_commitments\<close> lives in \<open>task/utils.py\<close>, which is not among the sources; it
  yields result, commitment and nonce. \<open>schedule\<close> is the order in which the tasks of the
  group take their turns before the deadline of the task. \<open>interrupt\<close> is what ends the run
  from outside the group (a cancellation of the runner), if anything does.
\<close>

record env =
  submit_tx :: "action list \<Rightarrow> string \<Rightarrow> call_args \<Rightarrow> exc + bytes"
  wait_tx :: "action list \<Rightarrow> bytes \<Rightarrow> exc option"
  chain_get_task :: "action list \<Rightarrow> nat \<Rightarrow> exc + ChainTask"
  chain_cancel_task :: "action list \<Rightarrow> nat \<Rightarrow> exc option"
  relay_get_task :: "action list \<Rightarrow> nat \<Rightarrow> exc option"
  run_distributed_task :: "action list \<Rightarrow> nat \<Rightarrow> exc option"
  run_local_task :: "action list \<Rightarrow> nat \<Rightarrow> exc + (string list \<times> string list)"
  relay_upload :: "action list \<Rightarrow> nat \<Rightarrow> string list \<Rightarrow> exc option"
  make_result_commitments :: "action list \<Rightarrow> string list \<Rightarrow> bytes \<times> bytes \<times> bytes"
  now :: "action list \<Rightarrow> real"
  interrupt :: "action list \<Rightarrow> exc option"
  schedule :: "choice list"

text \<open>The constructor arguments of a runner that the handlers read.\<close>

record config =
  c_task_id :: nat
  c_distributed :: bool
  c_account :: string
  c_commitment_watch_id :: nat
  c_success_watch_id :: nat
  c_aborted_watch_id :: nat

text \<open>What a handler works on once the state has been set: the state, the cache entry
  of this task, and the trace.\<close>

record world =
  st :: TaskState
  cached :: "TaskState option"
  tr :: "action list"

subsection \<open>The scoped state context\<close>

text \<open>Leaving \<open>state_context\<close>, on any path, dumps the state to the cache (and notifies the
  tasks that wait for a status).\<close>

definition state_context_exit :: "world \<Rightarrow> world" where
  "state_context_exit w = w\<lparr>cached := Some (st w), tr := tr w @ [Dump (st w)]\<rparr>"

subsection \<open>The chain-call coordinator\<close>

definition supported_method :: "string \<Rightarrow> bool" where
  "supported_method method \<longleftrightarrow>
     method = ''submitTaskResultCommitment'' \<or> method = ''discloseTaskResult''
     \<or> method = ''reportResultsUploaded'' \<or> method = ''reportTaskError''"

text \<open>\<open>await waiter.wait()\<close> followed by the state context that empties the two fields.
  When the wait raises, the lines after it are not reached.\<close>

definition wait_and_clear :: "env \<Rightarrow> bytes \<Rightarrow> world \<Rightarrow> exc option \<times> world" where
  "wait_and_clear e h w =
     (case wait_tx e (tr w) h of
        Some x \<Rightarrow> (Some x, w\<lparr>tr := tr w @ [WaitReceipt h]\<rparr>)
      | None \<Rightarrow>
          (None, state_context_exit
             (w\<lparr>st := (st w)\<lparr>waiting_tx_hash := [], waiting_tx_method := []\<rparr>,
                tr := tr w @ [WaitReceipt h]\<rparr>)))"

definition call_task_contract_method ::
  "env \<Rightarrow> string \<Rightarrow> call_args \<Rightarrow> world \<Rightarrow> exc option \<times> world" where
  "call_task_contract_method e method args w =
     (if waiting_tx_method (st w) = [] \<and> waiting_tx_hash (st w) = [] then
        (if supported_method method then
           (case submit_tx e (tr w) method args of
              Inl x \<Rightarrow> (Some x, w\<lparr>tr := tr w @ [Submit method args]\<rparr>)
            | Inr h \<Rightarrow> wait_and_clear e h (w\<lparr>tr := tr w @ [Submit method args]\<rparr>))
         else (Some (ValueError (''Unsupported task contract method: '' @ method)), w))
      else if waiting_tx_method (st w) = method \<and> waiting_tx_hash (st w) \<noteq> [] then
        wait_and_clear e (waiting_tx_hash (st w)) w
      else
        (Some (ValueError (''Error state waiting tx method: '' @ waiting_tx_method (st w))), w))"

subsection \<open>Handlers\<close>

text \<open>
  The functions of this subsection give a handler as it runs on its own, that is when
  no other task of the runner takes a turn between its first await and its return.
  A handler first waits for a status (\<open>wait_for_status\<close>). When the status is another
  one the handler stays suspended and has no effect: this is \<open>Blocked\<close>. Otherwise it
  runs and either raises or returns.
\<close>

datatype 'a res = Blocked | Raised exc | Returned 'a

text \<open>Python's \<open>sub in s\<close> on strings.\<close>

fun starts_with :: "string \<Rightarrow> string \<Rightarrow> bool" where
  "starts_with [] s = True"
| "starts_with (c # cs) [] = False"
| "starts_with (c # cs) (d # ds) = (c = d \<and> starts_with cs ds)"

fun str_in :: "string \<Rightarrow> string \<Rightarrow> bool" where
  "str_in sub [] = (sub = [])"
| "str_in sub (d # ds) = (starts_with sub (d # ds) \<or> str_in sub ds)"

definition report_error :: "env \<Rightarrow> config \<Rightarrow> world \<Rightarrow> exc option \<times> world" where
  "report_error e c w =
     (let w1 = state_context_exit (w\<lparr>st := (st w)\<lparr>status := Aborted\<rparr>\<rparr>) in
      case call_task_contract_method e ''reportTaskError''
             (CallArgs (c_task_id c) (round_no (st w1)) []) w1 of
        (None, w2) \<Rightarrow> (None, w2)
      | (Some x, w2) \<Rightarrow> if is_revert x then (None, w2) else (Some x, w2))"

definition lift_res :: "exc option \<times> world \<Rightarrow> unit res \<times> world" where
  "lift_res p = (case p of (None, w) \<Rightarrow> (Returned (), w) | (Some x, w) \<Rightarrow> (Raised x, w))"

definition task_created :: "env \<Rightarrow> config \<Rightarrow> nat \<Rightarrow> nat \<Rightarrow> world \<Rightarrow> unit res \<times> world" where
  "task_created e c tid rnd w =
     (if status (st w) \<noteq> Pending then (Blocked, w)
      else
        let w1 = state_context_exit (w\<lparr>st := (st w)\<lparr>round_no := rnd\<rparr>\<rparr>);
            w2 = w1\<lparr>tr := tr w1 @ [RelayGetTask tid]\<rparr>
        in case relay_get_task e (tr w1) tid of
             Some x \<Rightarrow> (Raised x, w2)
           | None \<Rightarrow>
               if c_distributed c then
                 (let w3 = w2\<lparr>tr := tr w2 @ [RunDistributed tid]\<rparr> in
                  case run_distributed_task e (tr w2) tid of
                    Some x \<Rightarrow> (Raised x, w3)
                  | None \<Rightarrow>
                      (Returned (),
                       state_context_exit (w3\<lparr>st := (st w3)\<lparr>status := Executing\<rparr>\<rparr>)))
               else
                 (let w3 = w2\<lparr>tr := tr w2 @ [RunLocal tid]\<rparr> in
                  case run_local_task e (tr w2) tid of
                    Inl x \<Rightarrow>
                      if x = TaskInvalid then
                        (case report_error e c (w3\<lparr>tr := tr w3 @ [ShieldEnter 60]\<rparr>) of
                           (r, w4) \<Rightarrow> lift_res (r, w4\<lparr>tr := tr w4 @ [ShieldExit]\<rparr>))
                      else (Raised x, w3)
                  | Inr (hashes, fs) \<Rightarrow>
                      (let w4 = state_context_exit (w3\<lparr>st := (st w3)\<lparr>status := Executing\<rparr>\<rparr>)
                       in (Returned (),
                           w4\<lparr>tr := tr w4 @ [QueuePut (TaskResultReady (c_task_id c) hashes fs)]\<rparr>))))"

text \<open>The last three lines of \<open>result_ready\<close>, and the exit of its state context.\<close>

definition result_uploaded :: "string list \<Rightarrow> world \<Rightarrow> unit res \<times> world" where
  "result_uploaded fs w =
     (Returned (),
      state_context_exit (w\<lparr>st := (st w)\<lparr>status := ResultUploaded, files := fs\<rparr>\<rparr>))"

definition result_ready ::
  "env \<Rightarrow> config \<Rightarrow> string list \<Rightarrow> string list \<Rightarrow> world \<Rightarrow> unit res \<times> world" where
  "result_ready e c hashes fs w =
     (if status (st w) \<noteq> Executing then (Blocked, w)
      else if result (st w) = [] then
        (case make_result_commitments e (tr w) hashes of
           (res, commitment, nonce) \<Rightarrow>
             (case call_task_contract_method e ''submitTaskResultCommitment''
                     (CallArgs (c_task_id c) (round_no (st w)) [commitment, nonce]) w of
                (None, w1) \<Rightarrow> result_uploaded fs (w1\<lparr>st := (st w1)\<lparr>result := res\<rparr>\<rparr>)
              | (Some x, w1) \<Rightarrow>
                  if is_revert x then
                    (if str_in ''Task is aborted'' (reason x) then
                       (case report_error e c w1 of
                          (r, w2) \<Rightarrow> lift_res (r, state_context_exit w2))
                     else result_uploaded fs (w1\<lparr>st := (st w1)\<lparr>result := res\<rparr>\<rparr>))
                  else (Raised x, state_context_exit w1)))
      else result_uploaded fs w)"

definition commitment_ready :: "env \<Rightarrow> config \<Rightarrow> world \<Rightarrow> unit res \<times> world" where
  "commitment_ready e c w =
     (if status (st w) \<noteq> ResultUploaded then (Blocked, w)
      else if result (st w) = [] then (Raised AssertionError, state_context_exit w)
      else if \<not> disclosed (st w) then
        (case call_task_contract_method e ''discloseTaskResult''
                (CallArgs (c_task_id c) (round_no (st w)) [result (st w)]) w of
           (Some x, w1) \<Rightarrow> (Raised x, state_context_exit w1)
         | (None, w1) \<Rightarrow>
             (Returned (),
              state_context_exit
                (w1\<lparr>st := (st w1)\<lparr>disclosed := True, status := Disclosed\<rparr>\<rparr>)))
      else (Returned (), state_context_exit (w\<lparr>st := (st w)\<lparr>status := Disclosed\<rparr>\<rparr>)))"

definition task_success :: "env \<Rightarrow> config \<Rightarrow> string \<Rightarrow> world \<Rightarrow> unit res \<times> world" where
  "task_success e c result_node w =
     (if status (st w) \<noteq> Disclosed then (Blocked, w)
      else if result_node = c_account c then
        (let w1 = w\<lparr>tr := tr w @ [UploadResult (c_task_id c) (files (st w))]\<rparr> in
         case relay_upload e (tr w) (c_task_id c) (files (st w)) of
           Some x \<Rightarrow> (Raised x, state_context_exit w1)
         | None \<Rightarrow>
             (case call_task_contract_method e ''reportResultsUploaded''
                     (CallArgs (c_task_id c) (round_no (st w1)) []) w1 of
                (Some x, w2) \<Rightarrow> (Raised x, state_context_exit w2)
              | (None, w2) \<Rightarrow>
                  (Returned (),
                   state_context_exit (w2\<lparr>st := (st w2)\<lparr>status := Success\<rparr>\<rparr>))))
      else (Returned (), state_context_exit (w\<lparr>st := (st w)\<lparr>status := Success\<rparr>\<rparr>)))"

definition task_aborted :: "world \<Rightarrow> unit res \<times> world" where
  "task_aborted w = (Returned (), state_context_exit (w\<lparr>st := (st w)\<lparr>status := Aborted\<rparr>\<rparr>))"

subsection \<open>Handlers as tasks of the task group\<close>

text \<open>
  \<open>run\<close> starts every handler with \<open>tg.start_soon\<close>, so the handlers of one runner are
  tasks that take turns at their awaits. A task is given here by what it does when it
  is resumed: it runs on the world of that moment up to its next await and is
  suspended there, or it ends. The answer of a collaborator is fixed when the call is
  made (the call is the last action before the await) and is used when the task is
  resumed. The awaits are
  \<^item> \<open>Gate s\<close>: \<open>wait_for_status(s)\<close>, which lets the task pass when the status is \<open>s\<close>;
  \<^item> \<open>Start\<close>: a task that has been started and has not run yet;
  \<^item> \<open>Call sh\<close>: the await of a collaborator; \<open>sh\<close> tells whether it is inside a shield;
  \<^item> \<open>Exit sh\<close>: \<open>async with self._state_condition\<close> at the exit of a state context, where
    the task waits until no other task holds the condition;
  \<^item> \<open>InDump\<close>: \<open>await self.cache.dump\<close>, where the task holds the condition; this await
    is inside the shield of \<open>state_context\<close>.
\<close>

datatype await = Gate TaskStatus | Start | Call bool | Exit bool | InDump

datatype coro = Ret bool | Exc exc | Susp await "world \<Rightarrow> world \<times> coro"

text \<open>The coordinator, with \<open>K\<close> for what the caller does with the outcome.\<close>

definition wait_and_clear_co ::
  "env \<Rightarrow> bool \<Rightarrow> bytes \<Rightarrow> (exc option \<Rightarrow> world \<Rightarrow> world \<times> coro) \<Rightarrow> world \<Rightarrow> world \<times> coro" where
  "wait_and_clear_co e sh h K w =
     (w\<lparr>tr := tr w @ [WaitReceipt h]\<rparr>,
      Susp (Call sh)
        (case wait_tx e (tr w) h of
           Some x \<Rightarrow> K (Some x)
         | None \<Rightarrow>
             (\<lambda>v. (v\<lparr>st := (st v)\<lparr>waiting_tx_hash := [], waiting_tx_method := []\<rparr>\<rparr>,
                   Susp (Exit sh) (K None)))))"

definition call_task_contract_method_co ::
  "env \<Rightarrow> bool \<Rightarrow> string \<Rightarrow> call_args \<Rightarrow> (exc option \<Rightarrow> world \<Rightarrow> world \<times> coro) \<Rightarrow>
     world \<Rightarrow> world \<times> coro" where
  "call_task_contract_method_co e sh method args K w =
     (if waiting_tx_method (st w) = [] \<and> waiting_tx_hash (st w) = [] then
        (if supported_method method then
           (w\<lparr>tr := tr w @ [Submit method args]\<rparr>,
            Susp (Call sh)
              (case submit_tx e (tr w) method args of
                 Inl x \<Rightarrow> K (Some x)
               | Inr h \<Rightarrow> wait_and_clear_co e sh h K))
         else K (Some (ValueError (''Unsupported task contract method: '' @ method))) w)
      else if waiting_tx_method (st w) = method \<and> waiting_tx_hash (st w) \<noteq> [] then
        wait_and_clear_co e sh (waiting_tx_hash (st w)) K w
      else
        K (Some (ValueError (''Error state waiting tx method: '' @ waiting_tx_method (st w)))) w)"

definition report_error_co ::
  "env \<Rightarrow> config \<Rightarrow> bool \<Rightarrow> (exc option \<Rightarrow> world \<Rightarrow> world \<times> coro) \<Rightarrow> world \<Rightarrow> world \<times> coro" where
  "report_error_co e c sh K w =
     (w\<lparr>st := (st w)\<lparr>status := Aborted\<rparr>\<rparr>,
      Susp (Exit sh)
        (\<lambda>v. call_task_contract_method_co e sh ''reportTaskError''
               (CallArgs (c_task_id c) (round_no (st v)) [])
               (\<lambda>r. case r of
                      None \<Rightarrow> K None
                    | Some x \<Rightarrow> if is_revert x then K None else K (Some x)) v))"

text \<open>The handlers. \<open>K None\<close> is what follows the return of the handler, \<open>K (Some x)\<close> what
  follows when it raises \<open>x\<close>.\<close>

definition task_created_co ::
  "env \<Rightarrow> config \<Rightarrow> nat \<Rightarrow> nat \<Rightarrow> (exc option \<Rightarrow> world \<Rightarrow> world \<times> coro) \<Rightarrow> coro" where
  "task_created_co e c tid rnd K =
     Susp (Gate Pending)
       (\<lambda>w. (w\<lparr>st := (st w)\<lparr>round_no := rnd\<rparr>\<rparr>,
          Susp (Exit False)
            (\<lambda>w. (w\<lparr>tr := tr w @ [RelayGetTask tid]\<rparr>,
               Susp (Call False)
                 (case relay_get_task e (tr w) tid of
                    Some x \<Rightarrow> K (Some x)
                  | None \<Rightarrow>
                      (\<lambda>w. if c_distributed c then
                             (w\<lparr>tr := tr w @ [RunDistributed tid]\<rparr>,
                              Susp (Call False)
                                (case run_distributed_task e (tr w) tid of
                                   Some x \<Rightarrow> K (Some x)
                                 | None \<Rightarrow>
                                     (\<lambda>w. (w\<lparr>st := (st w)\<lparr>status := Executing\<rparr>\<rparr>,
                                           Susp (Exit False) (K None)))))
                           else
                             (w\<lparr>tr := tr w @ [RunLocal tid]\<rparr>,
                              Susp (Call False)
                                (case run_local_task e (tr w) tid of
                                   Inl x \<Rightarrow>
                                     if x = TaskInvalid then
                                       (\<lambda>w. report_error_co e c True
                                              (\<lambda>r w. K r (w\<lparr>tr := tr w @ [ShieldExit]\<rparr>))
                                              (w\<lparr>tr := tr w @ [ShieldEnter 60]\<rparr>))
                                     else K (Some x)
                                 | Inr (hashes, fs) \<Rightarrow>
                                     (\<lambda>w. (w\<lparr>st := (st w)\<lparr>status := Executing\<rparr>\<rparr>,
                                           Susp (Exit False)
                                             (\<lambda>w. (w\<lparr>tr := tr w @ [QueuePut
                                                      (TaskResultReady (c_task_id c) hashes fs)]\<rparr>,
                                                   Susp (Call False) (K None)))))))))))))"

definition result_uploaded_co ::
  "string list \<Rightarrow> (exc option \<Rightarrow> world \<Rightarrow> world \<times> coro) \<Rightarrow> world \<Rightarrow> world \<times> coro" where
  "result_uploaded_co fs K w =
     (w\<lparr>st := (st w)\<lparr>status := ResultUploaded, files := fs\<rparr>\<rparr>, Susp (Exit False) (K None))"

definition result_ready_co ::
  "env \<Rightarrow> config \<Rightarrow> string list \<Rightarrow> string list \<Rightarrow> (exc option \<Rightarrow> world \<Rightarrow> world \<times> coro) \<Rightarrow> coro" where
  "result_ready_co e c hashes fs K =
     Susp (Gate Executing)
       (\<lambda>w. if result (st w) = [] then
           (case make_result_commitments e (tr w) hashes of
              (res, commitment, nonce) \<Rightarrow>
                call_task_contract_method_co e False ''submitTaskResultCommitment''
                  (CallArgs (c_task_id c) (round_no (st w)) [commitment, nonce])
                  (\<lambda>r v. case r of
                     None \<Rightarrow> result_uploaded_co fs K (v\<lparr>st := (st v)\<lparr>result := res\<rparr>\<rparr>)
                   | Some x \<Rightarrow>
                       if is_revert x then
                         (if str_in ''Task is aborted'' (reason x) then
                            report_error_co e c False (\<lambda>r u. (u, Susp (Exit False) (K r))) v
                          else result_uploaded_co fs K (v\<lparr>st := (st v)\<lparr>result := res\<rparr>\<rparr>))
                       else (v, Susp (Exit False) (K (Some x))))
                  w)
         else result_uploaded_co fs K w)"

definition commitment_ready_co ::
  "env \<Rightarrow> config \<Rightarrow> (exc option \<Rightarrow> world \<Rightarrow> world \<times> coro) \<Rightarrow> coro" where
  "commitment_ready_co e c K =
     Susp (Gate ResultUploaded)
       (\<lambda>w. if result (st w) = [] then (w, Susp (Exit False) (K (Some AssertionError)))
            else if \<not> disclosed (st w) then
              call_task_contract_method_co e False ''discloseTaskResult''
                (CallArgs (c_task_id c) (round_no (st w)) [result (st w)])
                (\<lambda>r v. case r of
                   Some x \<Rightarrow> (v, Susp (Exit False) (K (Some x)))
                 | None \<Rightarrow>
                     (v\<lparr>st := (st v)\<lparr>disclosed := True, status := Disclosed\<rparr>\<rparr>,
                      Susp (Exit False) (K None)))
                w
            else (w\<lparr>st := (st w)\<lparr>status := Disclosed\<rparr>\<rparr>, Susp (Exit False) (K None)))"

definition task_success_co ::
  "env \<Rightarrow> config \<Rightarrow> string \<Rightarrow> (exc option \<Rightarrow> world \<Rightarrow> world \<times> coro) \<Rightarrow> coro" where
  "task_success_co e c result_node K =
     Susp (Gate Disclosed)
       (\<lambda>w. if result_node = c_account c then
              (w\<lparr>tr := tr w @ [UploadResult (c_task_id c) (files (st w))]\<rparr>,
               Susp (Call False)
                 (case relay_upload e (tr w) (c_task_id c) (files (st w)) of
                    Some x \<Rightarrow> (\<lambda>v. (v, Susp (Exit False) (K (Some x))))
                  | None \<Rightarrow>
                      (\<lambda>v. call_task_contract_method_co e False ''reportResultsUploaded''
                             (CallArgs (c_task_id c) (round_no (st v)) [])
                             (\<lambda>r u. case r of
                                Some x \<Rightarrow> (u, Susp (Exit False) (K (Some x)))
                              | None \<Rightarrow>
                                  (u\<lparr>st := (st u)\<lparr>status := Success\<rparr>\<rparr>,
                                   Susp (Exit False) (K None)))
                             v)))
            else (w\<lparr>st := (st w)\<lparr>status := Success\<rparr>\<rparr>, Susp (Exit False) (K None)))"

definition task_aborted_co :: "(exc option \<Rightarrow> world \<Rightarrow> world \<times> coro) \<Rightarrow> coro" where
  "task_aborted_co K =
     Susp Start (\<lambda>w. (w\<lparr>st := (st w)\<lparr>status := Aborted\<rparr>\<rparr>, Susp (Exit False) (K None)))"

text \<open>
  \<open>_run_event\<close> around \<open>process_event\<close>: when the handler has returned, the event is acked,
  and the task ends with what \<open>process_event\<close> returned, which tells whether the event
  ends the run. What \<open>task_created\<close> returns is dropped, as in the source. (Putting the
  pair back into the deque when the task raises or is cancelled is done by the loop
  below.)
\<close>

definition acked :: "nat \<Rightarrow> bool \<Rightarrow> exc option \<Rightarrow> world \<Rightarrow> world \<times> coro" where
  "acked ack_id fin r w =
     (case r of
        Some x \<Rightarrow> (w, Exc x)
      | None \<Rightarrow> (w\<lparr>tr := tr w @ [Ack ack_id]\<rparr>, Susp (Call False) (\<lambda>v. (v, Ret fin))))"

fun run_event :: "env \<Rightarrow> config \<Rightarrow> nat \<Rightarrow> TaskEvent \<Rightarrow> coro" where
  "run_event e c ack_id (TaskCreated tid rnd) = task_created_co e c tid rnd (acked ack_id False)"
| "run_event e c ack_id (TaskResultReady tid hashes fs) =
     result_ready_co e c hashes fs (acked ack_id False)"
| "run_event e c ack_id (TaskResultCommitmentsReady tid) =
     commitment_ready_co e c (acked ack_id False)"
| "run_event e c ack_id (TaskSuccess tid result_node) =
     task_success_co e c result_node (acked ack_id True)"
| "run_event e c ack_id (TaskAborted tid) = task_aborted_co (acked ack_id True)"
| "run_event e c ack_id (OtherEvent kind tid) =
     Susp Start (\<lambda>w. (w, Exc (ValueError (''Unknown event kind '' @ kind))))"

subsection \<open>The run loop\<close>

text \<open>
  The state of the task group: the world, whether a task holds the state condition,
  the tasks that have been started and have not ended (each with the ack id and the
  event it handles), and the deque.
\<close>

record pool =
  wld :: world
  held :: bool
  tasks :: "(nat \<times> TaskEvent \<times> coro) list"
  inbox :: "(nat \<times> TaskEvent) list"

text \<open>A task that reaches the exit of a state context takes the condition when it is
  free and calls \<open>cache.dump\<close>; otherwise it waits for the condition.\<close>

definition settle :: "bool \<Rightarrow> world \<times> coro \<Rightarrow> bool \<times> world \<times> coro" where
  "settle h p =
     (case p of
        (w, Susp (Exit sh) k) \<Rightarrow>
          if h then (h, w, Susp (Exit sh) k) else (True, state_context_exit w, Susp InDump k)
      | (w, t) \<Rightarrow> (h, w, t))"

text \<open>Resuming a task: \<open>None\<close> when it cannot go on yet. A task at a gate goes on when the
  condition is free and the status is the awaited one; a task that comes back from the
  dump gives the condition back.\<close>

fun resume :: "bool \<Rightarrow> world \<Rightarrow> coro \<Rightarrow> (bool \<times> world \<times> coro) option" where
  "resume h w (Susp (Gate s) k) = (if \<not> h \<and> status (st w) = s then Some (settle h (k w)) else None)"
| "resume h w (Susp Start k) = Some (settle h (k w))"
| "resume h w (Susp (Call sh) k) = Some (settle h (k w))"
| "resume h w (Susp (Exit sh) k) = (if h then None else Some (settle h (w, Susp (Exit sh) k)))"
| "resume h w (Susp InDump k) = Some (settle False (k w))"
| "resume h w (Ret b) = None"
| "resume h w (Exc x) = None"

text \<open>What a cancellation of the group reaches: a task at an await outside a shield.\<close>

fun cancellable :: "coro \<Rightarrow> bool" where
  "cancellable (Susp (Gate s) k) = True"
| "cancellable (Susp Start k) = True"
| "cancellable (Susp (Call sh) k) = (\<not> sh)"
| "cancellable (Susp (Exit sh) k) = (\<not> sh)"
| "cancellable (Susp InDump k) = False"
| "cancellable (Ret b) = True"
| "cancellable (Exc x) = True"

fun set_task :: "nat \<Rightarrow> coro \<Rightarrow> (nat \<times> TaskEvent \<times> coro) list \<Rightarrow> (nat \<times> TaskEvent \<times> coro) list" where
  "set_task a t [] = []"
| "set_task a t (x # xs) = (if fst x = a then (a, fst (snd x), t) # xs else x # set_task a t xs)"

fun drop_task :: "nat \<Rightarrow> (nat \<times> TaskEvent \<times> coro) list \<Rightarrow> (nat \<times> TaskEvent \<times> coro) list" where
  "drop_task a [] = []"
| "drop_task a (x # xs) = (if fst x = a then xs else x # drop_task a xs)"

text \<open>\<open>_run_event\<close> puts the pair of a cancelled task back into the deque.\<close>

definition cancel_tasks :: "pool \<Rightarrow> pool" where
  "cancel_tasks p =
     p\<lparr>tasks := filter (\<lambda>x. \<not> cancellable (snd (snd x))) (tasks p),
       inbox := inbox p
         @ map (\<lambda>x. (fst x, fst (snd x))) (filter (\<lambda>x. cancellable (snd (snd x))) (tasks p))\<rparr>"

definition end_tasks :: "pool \<Rightarrow> pool" where
  "end_tasks p = p\<lparr>tasks := [], inbox := inbox p @ map (\<lambda>x. (fst x, fst (snd x))) (tasks p)\<rparr>"

text \<open>
  The order in which the tasks take their turns is the environment's: \<open>Receive\<close> lets
  the loop take the next pair from the deque and start its task, \<open>Resume a\<close> resumes the
  task of ack id \<open>a\<close> (nothing happens when the deque is empty, or when that task cannot
  go on). The schedule is what takes place before the deadline. The deque holds the
  events that are sent to the runner, in the order of their arrival; an event that
  arrives late is one that is received late.

  Once the group is cancelled (\<open>wind_down\<close>, with the outcome \<open>x\<close> of the block), every
  task at an await outside a shield is cancelled, at once or as soon as it gets
  there; the tasks inside a shield go on, and the block is left when no task remains.
  An exception of such a task becomes the outcome when the block had none. When the
  schedule is used up, the tasks that remain are ended in the same way.
\<close>

fun wind_down :: "choice list \<Rightarrow> exc option \<Rightarrow> pool \<Rightarrow> exc option \<times> pool" where
  "wind_down [] x p = (x, end_tasks p)"
| "wind_down (ch # rest) x p =
     (if tasks (cancel_tasks p) = [] then (x, cancel_tasks p)
      else
        (case ch of
           Receive \<Rightarrow> wind_down rest x (cancel_tasks p)
         | Resume a \<Rightarrow>
             (case map_of (tasks (cancel_tasks p)) a of
                None \<Rightarrow> wind_down rest x (cancel_tasks p)
              | Some (ev, t) \<Rightarrow>
                  (case resume (held p) (wld p) t of
                     None \<Rightarrow> wind_down rest x (cancel_tasks p)
                   | Some (h, w, Ret fin) \<Rightarrow>
                       wind_down rest x
                         ((cancel_tasks p)\<lparr>wld := w, held := h,
                            tasks := drop_task a (tasks (cancel_tasks p))\<rparr>)
                   | Some (h, w, Exc y) \<Rightarrow>
                       wind_down rest (case x of None \<Rightarrow> Some y | Some z \<Rightarrow> Some z)
                         ((cancel_tasks p)\<lparr>wld := w, held := h,
                            tasks := drop_task a (tasks (cancel_tasks p)),
                            inbox := inbox (cancel_tasks p) @ [(a, ev)]\<rparr>)
                   | Some (h, w, Susp aw k) \<Rightarrow>
                       wind_down rest x
                         ((cancel_tasks p)\<lparr>wld := w, held := h,
                            tasks := set_task a (Susp aw k) (tasks (cancel_tasks p))\<rparr>)))))"

text \<open>
  The body of \<open>with fail_after(delay): async with create_task_group(): while True\<close>. It
  yields \<open>None\<close> when a task has returned \<open>True\<close> and cancelled the group, and the exception
  that leaves the block otherwise: the one a task has raised, what the environment
  interrupts the run with (a cancellation from outside), or \<open>TimeoutError\<close> when the
  deadline ends the run.
\<close>

fun run_loop :: "env \<Rightarrow> config \<Rightarrow> choice list \<Rightarrow> pool \<Rightarrow> exc option \<times> pool" where
  "run_loop e c [] p =
     wind_down []
       (Some (case interrupt e (tr (wld p)) of Some x \<Rightarrow> x | None \<Rightarrow> TimeoutError)) p"
| "run_loop e c (ch # rest) p =
     (case interrupt e (tr (wld p)) of
        Some x \<Rightarrow> wind_down (ch # rest) (Some x) p
      | None \<Rightarrow>
          (case ch of
             Receive \<Rightarrow>
               (case inbox p of
                  [] \<Rightarrow> run_loop e c rest p
                | q # others \<Rightarrow>
                    run_loop e c rest
                      (p\<lparr>inbox := others,
                         tasks := tasks p @ [(fst q, snd q, run_event e c (fst q) (snd q))]\<rparr>))
           | Resume a \<Rightarrow>
               (case map_of (tasks p) a of
                  None \<Rightarrow> run_loop e c rest p
                | Some (ev, t) \<Rightarrow>
                    (case resume (held p) (wld p) t of
                       None \<Rightarrow> run_loop e c rest p
                     | Some (h, w, Ret fin) \<Rightarrow>
                         if fin then
                           wind_down rest None
                             (p\<lparr>wld := w, held := h, tasks := drop_task a (tasks p)\<rparr>)
                         else
                           run_loop e c rest
                             (p\<lparr>wld := w, held := h, tasks := drop_task a (tasks p)\<rparr>)
                     | Some (h, w, Exc x) \<Rightarrow>
                         wind_down rest (Some x)
                           (p\<lparr>wld := w, held := h, tasks := drop_task a (tasks p),
                              inbox := inbox p @ [(a, ev)]\<rparr>)
                     | Some (h, w, Susp aw k) \<Rightarrow>
                         run_loop e c rest
                           (p\<lparr>wld := w, held := h, tasks := set_task a (Susp aw k) (tasks p)\<rparr>)))))"

subsection \<open>A task on its own\<close>

text \<open>
  A task that is resumed as soon as it is suspended, while no other task takes a turn:
  the condition is free when it wants it, and a gate that does not let it pass never
  will (\<open>Blocked\<close>). The handlers of the subsection before are the tasks run in this
  way (lemmas \<open>alone_task_created\<close> to \<open>alone_task_aborted\<close> below).
\<close>

primrec alone :: "coro \<Rightarrow> world \<Rightarrow> bool res \<times> world" where
  "alone (Ret b) = (\<lambda>w. (Returned b, w))"
| "alone (Exc x) = (\<lambda>w. (Raised x, w))"
| "alone (Susp a k) =
     (\<lambda>w. case a of
        Gate s \<Rightarrow>
          if status (st w) = s then (case map_prod id alone (k w) of (v, f) \<Rightarrow> f v)
          else (Blocked, w)
      | Exit sh \<Rightarrow> (case map_prod id alone (k (state_context_exit w)) of (v, f) \<Rightarrow> f v)
      | _ \<Rightarrow> (case map_prod id alone (k w) of (v, f) \<Rightarrow> f v))"

definition run_alone :: "world \<times> coro \<Rightarrow> bool res \<times> world" where
  "run_alone p = alone (snd p) (fst p)"

text \<open>A handler that is not wrapped in \<open>_run_event\<close>: the task ends when the handler does.\<close>

definition ended :: "exc option \<Rightarrow> world \<Rightarrow> world \<times> coro" where
  "ended r w = (w, case r of None \<Rightarrow> Ret False | Some x \<Rightarrow> Exc x)"

definition returning :: "unit res \<times> world \<Rightarrow> bool res \<times> world" where
  "returning p =
     (case p of
        (Blocked, w) \<Rightarrow> (Blocked, w)
      | (Raised x, w) \<Rightarrow> (Raised x, w)
      | (Returned u, w) \<Rightarrow> (Returned False, w))"

subsection \<open>The runner: init, run, drain, cleanup\<close>

record runner =
  state :: "TaskState option"
  cache :: "TaskState option"
  trace :: "action list"
  deque :: "(nat \<times> TaskEvent) list"
  cleaned :: bool

text \<open>The state that \<open>init\<close> creates; the fields it does not give take the empty defaults
  of section 3 of the specification.\<close>

definition new_state :: "nat \<Rightarrow> TaskState" where
  "new_state tid =
     \<lparr>task_id = tid, round_no = 0, timeout = 0, status = Pending, result = [],
      disclosed = False, files = [], waiting_tx_method = [], waiting_tx_hash = []\<rparr>"

definition get_task :: "env \<Rightarrow> config \<Rightarrow> action list \<Rightarrow> exc + ChainTask option" where
  "get_task e c t =
     (case chain_get_task e t (c_task_id c) of
        Inl x \<Rightarrow> Inl x
      | Inr task \<Rightarrow>
          if ct_id task = 0 \<or> ct_id task \<noteq> c_task_id c then Inr None else Inr (Some task))"

text \<open>Leaving \<open>init\<close> with state \<open>s\<close>: the \<open>finally\<close> clause dumps it when \<open>need_dump\<close> is set.\<close>

definition init_exit :: "runner \<Rightarrow> TaskState \<Rightarrow> bool \<Rightarrow> action list \<Rightarrow> runner" where
  "init_exit r s need_dump t =
     (if need_dump then r\<lparr>state := Some s, cache := Some s, trace := t @ [Dump s]\<rparr>
      else r\<lparr>state := Some s, trace := t\<rparr>)"

text \<open>The first block of \<open>init\<close>: the state already set, or else the one loaded from the
  cache, or else a new one, which has to be dumped.\<close>

definition load_state :: "config \<Rightarrow> runner \<Rightarrow> TaskState \<times> bool" where
  "load_state c r =
     (case state r of
        Some s \<Rightarrow> (s, False)
      | None \<Rightarrow>
          (case cache r of
             Some s \<Rightarrow> (s, False)
           | None \<Rightarrow> (new_state (c_task_id c), True)))"

text \<open>\<open>init\<close> returns whether the run is to go on; \<open>run\<close> returns at once when it is
  \<open>False\<close>, which is the \<open>skip\<close> of the specification.\<close>

definition init :: "env \<Rightarrow> config \<Rightarrow> runner \<Rightarrow> (exc + bool) \<times> runner" where
  "init e c r =
     (case load_state c r of
        (s, need_dump) \<Rightarrow>
          if status s = Success \<or> status s = Aborted then
            (Inr False, init_exit r s need_dump (trace r))
          else
            (case get_task e c (trace r) of
               Inl x \<Rightarrow> (Inl x, init_exit r s need_dump (trace r @ [GetTask (c_task_id c)]))
             | Inr None \<Rightarrow>
                 (Inr False,
                  init_exit r (s\<lparr>status := Aborted\<rparr>) True (trace r @ [GetTask (c_task_id c)]))
             | Inr (Some task) \<Rightarrow>
                 if timeout s \<noteq> ct_timeout task then
                   (Inr True,
                    init_exit r (s\<lparr>timeout := ct_timeout task\<rparr>) True
                      (trace r @ [GetTask (c_task_id c)]))
                 else
                   (Inr True, init_exit r s need_dump (trace r @ [GetTask (c_task_id c)]))))"

definition cancel_task :: "env \<Rightarrow> config \<Rightarrow> runner \<Rightarrow> exc option \<times> runner" where
  "cancel_task e c r =
     (case chain_cancel_task e (trace r) (c_task_id c) of
        None \<Rightarrow> (None, r\<lparr>trace := trace r @ [CancelTask (c_task_id c)]\<rparr>)
      | Some x \<Rightarrow>
          if x = Cancelled then (Some Cancelled, r\<lparr>trace := trace r @ [CancelTask (c_task_id c)]\<rparr>)
          else (None, r\<lparr>trace := trace r @ [CancelTask (c_task_id c)]\<rparr>))"

text \<open>The clause \<open>except TimeoutError\<close> of \<open>run\<close>.\<close>

definition deadline_path :: "env \<Rightarrow> config \<Rightarrow> runner \<Rightarrow> exc option \<times> runner" where
  "deadline_path e c r =
     (case state r of
        None \<Rightarrow> (Some AssertionError, r)
      | Some s \<Rightarrow>
          cancel_task e c
            (r\<lparr>state := Some (s\<lparr>status := Aborted\<rparr>), cache := Some (s\<lparr>status := Aborted\<rparr>),
               trace := trace r @ [Dump (s\<lparr>status := Aborted\<rparr>)]\<rparr>))"

definition cleanup :: "config \<Rightarrow> runner \<Rightarrow> exc option \<times> runner" where
  "cleanup c r =
     (if cleaned r then (None, r)
      else
        (case state r of
           None \<Rightarrow>
             (Some AssertionError,
              r\<lparr>trace := trace r @ [Unwatch (c_commitment_watch_id c),
                   Unwatch (c_success_watch_id c), Unwatch (c_aborted_watch_id c)]\<rparr>)
         | Some s \<Rightarrow>
             (None,
              r\<lparr>trace := trace r @ [Unwatch (c_commitment_watch_id c),
                   Unwatch (c_success_watch_id c), Unwatch (c_aborted_watch_id c),
                   DeleteResultFiles (files s)],
                state := None, cleaned := True\<rparr>)))"

definition terminal :: "runner \<Rightarrow> bool" where
  "terminal r =
     (case state r of None \<Rightarrow> False | Some s \<Rightarrow> status s = Aborted \<or> status s = Success)"

text \<open>The \<open>finally\<close> clause of \<open>run\<close>.\<close>

definition drain :: "config \<Rightarrow> runner \<Rightarrow> exc option \<times> runner" where
  "drain c r =
     (if terminal r then
        (case cleanup c (r\<lparr>trace := trace r @ ShieldEnter 10 # map (\<lambda>p. Ack (fst p)) (deque r)\<rparr>) of
           (x, r1) \<Rightarrow> (x, r1\<lparr>trace := trace r1 @ [ShieldExit]\<rparr>))
      else
        (None,
         r\<lparr>trace := trace r @ ShieldEnter 10 # map (\<lambda>p. NoAck (fst p)) (deque r) @ [ShieldExit]\<rparr>))"

text \<open>The \<open>try\<close> block of \<open>run\<close>.\<close>

definition run_try :: "env \<Rightarrow> config \<Rightarrow> runner \<Rightarrow> exc option \<times> runner" where
  "run_try e c r =
     (case init e c r of
        (Inl x, r1) \<Rightarrow> (Some x, r1)
      | (Inr success, r1) \<Rightarrow>
          if \<not> success then (None, r1)
          else
            (case state r1 of
               None \<Rightarrow> (Some AssertionError, r1)
             | Some s \<Rightarrow>
                 if real_of_int (timeout s) - now e (trace r1) \<le> 0 then (Some TimeoutError, r1)
                 else
                   (case run_loop e c (schedule e)
                           \<lparr>wld = \<lparr>st = s, cached = cache r1, tr = trace r1\<rparr>, held = False,
                            tasks = [], inbox = deque r1\<rparr> of
                      (x, p) \<Rightarrow>
                        (x, r1\<lparr>state := Some (st (wld p)), cache := cached (wld p),
                               trace := tr (wld p), deque := inbox p\<rparr>))))"

text \<open>The \<open>except\<close> clauses: a cancellation is raised again, a \<open>TimeoutError\<close> takes the
  deadline path, anything else goes on to the caller.\<close>

definition run_except :: "env \<Rightarrow> config \<Rightarrow> exc option \<times> runner \<Rightarrow> exc option \<times> runner" where
  "run_except e c p =
     (case p of
        (None, r) \<Rightarrow> (None, r)
      | (Some x, r) \<Rightarrow>
          if x = Cancelled then (Some Cancelled, r)
          else if x = TimeoutError then deadline_path e c r
          else (Some x, r))"

definition run :: "env \<Rightarrow> config \<Rightarrow> runner \<Rightarrow> exc option \<times> runner" where
  "run e c r =
     (case run_except e c (run_try e c r) of
        (x, r1) \<Rightarrow>
          (case drain c r1 of
             (None, r2) \<Rightarrow> (x, r2)
           | (Some y, r2) \<Rightarrow> (Some y, r2)))"

subsection \<open>Observations on traces\<close>

fun is_cancel :: "action \<Rightarrow> bool" where
  "is_cancel (CancelTask n) = True"
| "is_cancel a = False"

definition cancels :: "action list \<Rightarrow> nat" where
  "cancels t = length (filter is_cancel t)"

text \<open>The number of calls of a contract function through \<open>func(...)\<close>.\<close>

fun is_submit_of :: "string \<Rightarrow> action \<Rightarrow> bool" where
  "is_submit_of m (Submit m' args) = (m' = m)"
| "is_submit_of m a = False"

definition submissions :: "string \<Rightarrow> action list \<Rightarrow> nat" where
  "submissions m t = length (filter (is_submit_of m) t)"

text \<open>The order of the protocol, and the steps the status may take: stay, go to the
  next stage, or jump to Aborted from a status that is not Success.\<close>

fun next_status :: "TaskStatus \<Rightarrow> TaskStatus option" where
  "next_status Pending = Some Executing"
| "next_status Executing = Some ResultUploaded"
| "next_status ResultUploaded = Some Disclosed"
| "next_status Disclosed = Some Success"
| "next_status Success = None"
| "next_status Aborted = None"

definition status_step :: "TaskStatus \<Rightarrow> TaskStatus \<Rightarrow> bool" where
  "status_step a b \<longleftrightarrow> b = a \<or> next_status a = Some b \<or> (b = Aborted \<and> a \<noteq> Success)"

text \<open>The statuses that a trace has dumped, in order.\<close>

fun statuses :: "action list \<Rightarrow> TaskStatus list" where
  "statuses [] = []"
| "statuses (Dump s # t) = status s # statuses t"
| "statuses (a # t) = statuses t"

subsection \<open>Invariants of the task group\<close>

text \<open>
  No transaction is recorded as in flight: the two waiting fields are empty in the
  state, in the cache entry and in every state that has been dumped.
\<close>

definition no_tx :: "TaskState \<Rightarrow> bool" where
  "no_tx s \<longleftrightarrow> waiting_tx_method s = [] \<and> waiting_tx_hash s = []"

definition idle :: "world \<Rightarrow> bool" where
  "idle w \<longleftrightarrow> no_tx (st w) \<and> (\<forall>s. cached w = Some s \<longrightarrow> no_tx s)
     \<and> (\<forall>s. Dump s \<in> set (tr w) \<longrightarrow> no_tx s)"

definition idle_runner :: "runner \<Rightarrow> bool" where
  "idle_runner r \<longleftrightarrow> (\<forall>s. state r = Some s \<longrightarrow> no_tx s) \<and> (\<forall>s. cache r = Some s \<longrightarrow> no_tx s)
     \<and> (\<forall>s. Dump s \<in> set (trace r) \<longrightarrow> no_tx s)"

text \<open>\<open>inv n b\<close>: \<open>cancelTask\<close> has been called \<open>n\<close> times and, when \<open>b\<close> is set, no transaction is
  recorded as in flight.\<close>

definition inv :: "nat \<Rightarrow> bool \<Rightarrow> world \<Rightarrow> bool" where
  "inv n b w \<longleftrightarrow> cancels (tr w) = n \<and> (b \<longrightarrow> idle w)"

text \<open>A task keeps \<open>P\<close> when each of its turns leads from a world where \<open>P\<close> holds to one
  where it holds, whatever the other tasks have done to the world in between.\<close>

inductive keeps :: "(world \<Rightarrow> bool) \<Rightarrow> coro \<Rightarrow> bool" for P where
  keeps_Ret: "keeps P (Ret b)"
| keeps_Exc: "keeps P (Exc x)"
| keeps_Susp: "(\<And>w. P w \<Longrightarrow> P (fst (k w)) \<and> keeps P (snd (k w))) \<Longrightarrow> keeps P (Susp a k)"

definition seg :: "(world \<Rightarrow> bool) \<Rightarrow> (world \<Rightarrow> world \<times> coro) \<Rightarrow> bool" where
  "seg P k \<longleftrightarrow> (\<forall>w. P w \<longrightarrow> P (fst (k w)) \<and> keeps P (snd (k w)))"

definition good :: "(world \<Rightarrow> bool) \<Rightarrow> pool \<Rightarrow> bool" where
  "good P p \<longleftrightarrow> P (wld p) \<and> (\<forall>x\<in>set (tasks p). keeps P (snd (snd x)))"

subsection \<open>Concrete inputs\<close>

text \<open>A chain that accepts every submission (hash \<open>EE\<close> for \<open>reportTaskError\<close>, hash \<open>AB\<close>
  for the other methods) and answers the wait for \<open>AB\<close> with the given outcome.\<close>

definition env_of :: "exc option \<Rightarrow> env" where
  "env_of wr =
     \<lparr>submit_tx = (\<lambda>t m a. Inr (if m = ''reportTaskError'' then [0xEE] else [0xAB])),
      wait_tx = (\<lambda>t h. if h = [0xAB] then wr else None),
      chain_get_task = (\<lambda>t n. Inr \<lparr>ct_id = n, ct_timeout = 900\<rparr>),
      chain_cancel_task = (\<lambda>t n. None),
      relay_get_task = (\<lambda>t n. None),
      run_distributed_task = (\<lambda>t n. None),
      run_local_task = (\<lambda>t n. Inr ([''0xAA'', ''0xBB''], [''a.png'', ''b.png''])),
      relay_upload = (\<lambda>t n fs. None),
      make_result_commitments = (\<lambda>t hs. ([0xAA, 0xBB], [0x01], [0x02])),
      now = (\<lambda>t. 0),
      interrupt = (\<lambda>t. None),
      schedule = []\<rparr>"

definition state_of :: "TaskStatus \<Rightarrow> bytes \<Rightarrow> string \<Rightarrow> bytes \<Rightarrow> TaskState" where
  "state_of s res m h =
     \<lparr>task_id = 7, round_no = 2, timeout = 900, status = s, result = res,
      disclosed = False, files = [], waiting_tx_method = m, waiting_tx_hash = h\<rparr>"

definition world_of :: "TaskState \<Rightarrow> world" where
  "world_of s = \<lparr>st = s, cached = Some s, tr = []\<rparr>"

definition cfg7 :: config where
  "cfg7 = \<lparr>c_task_id = 7, c_distributed = False, c_account = ''node'',
           c_commitment_watch_id = 1, c_success_watch_id = 2, c_aborted_watch_id = 3\<rparr>"

text \<open>A chain on which the deadline of the task has passed, and whose \<open>cancelTask\<close>
  reverts; a chain that cannot be reached; a runner that has just been constructed,
  with the given cache entry and deque.\<close>

definition env_late :: env where
  "env_late = (env_of None)\<lparr>now := (\<lambda>t. 1000),
      chain_cancel_task := (\<lambda>t n. Some (TxRevertedError ''Task not started''))\<rparr>"

definition env_down :: env where
  "env_down = (env_of None)\<lparr>chain_get_task := (\<lambda>t n. Inl (OtherError ''connection refused''))\<rparr>"

definition runner_of :: "TaskState option \<Rightarrow> (nat \<times> TaskEvent) list \<Rightarrow> runner" where
  "runner_of s dq = \<lparr>state = None, cache = s, trace = [], deque = dq, cleaned = False\<rparr>"

section \<open>Properties\<close>

subsection \<open>The coordinator\<close>



text \<open>
  C1. The claim: a call that starts with both waiting fields empty persists (method,
  hash) into the task state before it awaits the receipt. The source does not: after
  \<open>waiter = await func(...)\<close> the next statement is \<open>await waiter.wait()\<close>. Evaluated on a
  state with empty fields and a chain that hands back hash \<open>AB\<close>: the trace is the
  submission, the wait, and one dump, made after the wait, of a state whose waiting
  fields are empty; the hash never reaches the state or the cache.
\<close>

theorem submit_leaves_waiting_fields_empty:
  "call_task_contract_method (env_of None) ''discloseTaskResult'' (CallArgs 7 2 [[0xAA, 0xBB]])
      (world_of (state_of ResultUploaded [0xAA, 0xBB] [] [])) =
     (None,
      \<lparr>st = state_of ResultUploaded [0xAA, 0xBB] [] [],
       cached = Some (state_of ResultUploaded [0xAA, 0xBB] [] []),
       tr = [Submit ''discloseTaskResult'' (CallArgs 7 2 [[0xAA, 0xBB]]), WaitReceipt [0xAB],
             Dump (state_of ResultUploaded [0xAA, 0xBB] [] [])]\<rparr>)"
  by (simp add: call_task_contract_method_def wait_and_clear_def state_context_exit_def
      supported_method_def env_of_def world_of_def state_of_def)

text \<open>
  C2. When the stored method is the requested one and a hash is stored, the
  coordinator submits nothing: it waits for the receipt of the stored hash; when the
  wait returns, both fields are emptied in the state and in the cache, and when it
  raises, the exception goes to the caller. When a method or a hash is stored and the
  stored method is not the requested one, the call raises \<open>ValueError\<close> and nothing
  else happens: the world, and so the trace, is the one before the call.
\<close>

theorem resume_awaits_stored_hash:
  "(waiting_tx_method (st w) = method \<and> waiting_tx_hash (st w) \<noteq> [] \<longrightarrow>
      (wait_tx e (tr w) (waiting_tx_hash (st w)) = None \<longrightarrow>
         call_task_contract_method e method args w =
           (None,
            \<lparr>st = (st w)\<lparr>waiting_tx_hash := [], waiting_tx_method := []\<rparr>,
             cached = Some ((st w)\<lparr>waiting_tx_hash := [], waiting_tx_method := []\<rparr>),
             tr = tr w @ [WaitReceipt (waiting_tx_hash (st w)),
               Dump ((st w)\<lparr>waiting_tx_hash := [], waiting_tx_method := []\<rparr>)]\<rparr>))
      \<and> (\<forall>x. wait_tx e (tr w) (waiting_tx_hash (st w)) = Some x \<longrightarrow>
           call_task_contract_method e method args w =
             (Some x, w\<lparr>tr := tr w @ [WaitReceipt (waiting_tx_hash (st w))]\<rparr>)))
   \<and> (waiting_tx_method (st w) \<noteq> method
        \<and> (waiting_tx_method (st w) \<noteq> [] \<or> waiting_tx_hash (st w) \<noteq> []) \<longrightarrow>
      call_task_contract_method e method args w =
        (Some (ValueError (''Error state waiting tx method: '' @ waiting_tx_method (st w))), w))"
  by (auto simp add: call_task_contract_method_def wait_and_clear_def state_context_exit_def)

theorem resume_awaits_stored_hash_witness:
  "call_task_contract_method (env_of None) ''discloseTaskResult'' (CallArgs 7 2 [[0xAA, 0xBB]])
      (world_of (state_of ResultUploaded [0xAA, 0xBB] ''discloseTaskResult'' [0xAB])) =
     (None,
      \<lparr>st = state_of ResultUploaded [0xAA, 0xBB] [] [],
       cached = Some (state_of ResultUploaded [0xAA, 0xBB] [] []),
       tr = [WaitReceipt [0xAB], Dump (state_of ResultUploaded [0xAA, 0xBB] [] [])]\<rparr>)
   \<and> call_task_contract_method (env_of None) ''reportTaskError'' (CallArgs 7 2 [])
      (world_of (state_of ResultUploaded [0xAA, 0xBB] ''discloseTaskResult'' [0xAB])) =
     (Some (ValueError ''Error state waiting tx method: discloseTaskResult''),
      world_of (state_of ResultUploaded [0xAA, 0xBB] ''discloseTaskResult'' [0xAB]))"
  using resume_awaits_stored_hash
    [of "world_of (state_of ResultUploaded [0xAA, 0xBB] ''discloseTaskResult'' [0xAB])"
        "''discloseTaskResult''" "env_of None" "CallArgs 7 2 [[0xAA, 0xBB]]"]
    resume_awaits_stored_hash
    [of "world_of (state_of ResultUploaded [0xAA, 0xBB] ''discloseTaskResult'' [0xAB])"
        "''reportTaskError''" "env_of None" "CallArgs 7 2 []"]
  by (simp add: env_of_def world_of_def state_of_def)

subsection \<open>What every turn of a task keeps\<close>

lemma cancels_append [simp]: "cancels (a @ b) = cancels a + cancels b"
  by (simp add: cancels_def)

lemma cancels_simps [simp]: "cancels [] = 0" "cancels (x # t) = (if is_cancel x then 1 else 0) + cancels t"
  by (simp_all add: cancels_def)

lemma keeps_Susp_seg: "seg P k \<Longrightarrow> keeps P (Susp a k)"
  by (rule keeps_Susp) (simp add: seg_def)

lemma keeps_Susp_iff [simp]: "keeps P (Susp a k) \<longleftrightarrow> seg P k"
  by (auto simp add: seg_def intro: keeps_Susp elim: keeps.cases)

lemma segI: "(\<And>w. P w \<Longrightarrow> P (fst (k w)) \<and> keeps P (snd (k w))) \<Longrightarrow> seg P k"
  by (simp add: seg_def)

lemma segD: "seg P k \<Longrightarrow> P w \<Longrightarrow> P (fst (k w)) \<and> keeps P (snd (k w))"
  by (simp add: seg_def)

lemma inv_tr:
  "inv n b w \<Longrightarrow> \<not> is_cancel a \<Longrightarrow> (\<And>s. a \<noteq> Dump s) \<Longrightarrow> inv n b (w\<lparr>tr := tr w @ [a]\<rparr>)"
  by (auto simp add: inv_def idle_def)

lemma inv_st:
  "inv n b w \<Longrightarrow> waiting_tx_method s = [] \<and> waiting_tx_hash s = []
     \<or> waiting_tx_method s = waiting_tx_method (st w) \<and> waiting_tx_hash s = waiting_tx_hash (st w) \<Longrightarrow>
   inv n b (w\<lparr>st := s\<rparr>)"
  by (auto simp add: inv_def idle_def no_tx_def)

lemma inv_exit: "inv n b w \<Longrightarrow> inv n b (state_context_exit w)"
  by (auto simp add: inv_def idle_def state_context_exit_def)

lemma seg_wait:
  assumes "\<And>r. seg (inv n b) (K r)"
  shows "seg (inv n b) (wait_and_clear_co e sh h K)"
proof (rule segI)
  fix w assume w: "inv n b w"
  have "seg (inv n b) (\<lambda>v. (v\<lparr>st := (st v)\<lparr>waiting_tx_hash := [], waiting_tx_method := []\<rparr>\<rparr>,
                   Susp (Exit sh) (K None)))"
    using assms by (auto intro!: segI inv_st)
  with assms have "seg (inv n b) (case wait_tx e (tr w) h of
           Some x \<Rightarrow> K (Some x)
         | None \<Rightarrow>
             (\<lambda>v. (v\<lparr>st := (st v)\<lparr>waiting_tx_hash := [], waiting_tx_method := []\<rparr>\<rparr>,
                   Susp (Exit sh) (K None))))"
    by (simp split: option.split)
  with w show "inv n b (fst (wait_and_clear_co e sh h K w))
      \<and> keeps (inv n b) (snd (wait_and_clear_co e sh h K w))"
    by (simp add: wait_and_clear_co_def inv_tr)
qed

lemma seg_call:
  assumes "\<And>r. seg (inv n b) (K r)"
  shows "seg (inv n b) (call_task_contract_method_co e sh m a K)"
proof (rule segI)
  fix w assume w: "inv n b w"
  note sw = seg_wait [of n b K, OF assms]
  have "seg (inv n b) (case submit_tx e (tr w) m a of
                 Inl x \<Rightarrow> K (Some x)
               | Inr h \<Rightarrow> wait_and_clear_co e sh h K)"
    using assms sw by (simp split: sum.split)
  with w segD [OF sw w] segD [OF assms w]
  show "inv n b (fst (call_task_contract_method_co e sh m a K w))
      \<and> keeps (inv n b) (snd (call_task_contract_method_co e sh m a K w))"
    by (simp add: call_task_contract_method_co_def inv_tr)
qed

lemma seg_report:
  assumes "\<And>r. seg (inv n b) (K r)"
  shows "seg (inv n b) (report_error_co e c sh K)"
proof (rule segI)
  fix w assume w: "inv n b w"
  have k: "seg (inv n b) (case r of None \<Rightarrow> K None
                    | Some x \<Rightarrow> if is_revert x then K None else K (Some x))" for r
    using assms by (simp split: option.split)
  have "seg (inv n b) (\<lambda>v. call_task_contract_method_co e sh ''reportTaskError''
               (CallArgs (c_task_id c) (round_no (st v)) [])
               (\<lambda>r. case r of
                      None \<Rightarrow> K None
                    | Some x \<Rightarrow> if is_revert x then K None else K (Some x)) v)"
    using seg_call [of n b _ e sh, OF k] by (auto simp add: seg_def)
  with w show "inv n b (fst (report_error_co e c sh K w))
      \<and> keeps (inv n b) (snd (report_error_co e c sh K w))"
    by (simp add: report_error_co_def inv_st)
qed

lemma seg_exitK: "seg (inv n b) (K r) \<Longrightarrow> seg (inv n b) (\<lambda>u. (u, Susp (Exit sh) (K r)))"
  by (simp add: seg_def)

lemma seg_uploaded:
  assumes "\<And>r. seg (inv n b) (K r)"
  shows "seg (inv n b) (result_uploaded_co fs K)"
  using assms by (auto intro!: segI inv_st simp add: result_uploaded_co_def)

lemma keeps_task_created:
  assumes K: "\<And>r. seg (inv n b) (K r)"
  shows "keeps (inv n b) (task_created_co e c tid rnd K)"
proof -
  have sh: "seg (inv n b) (\<lambda>w. K r (w\<lparr>tr := tr w @ [ShieldExit]\<rparr>))" for r
    using K by (auto simp add: seg_def inv_tr)
  have rep: "seg (inv n b) (\<lambda>w. report_error_co e c True
                                              (\<lambda>r w. K r (w\<lparr>tr := tr w @ [ShieldExit]\<rparr>))
                                              (w\<lparr>tr := tr w @ [ShieldEnter 60]\<rparr>))"
    using seg_report [of n b "\<lambda>r w. K r (w\<lparr>tr := tr w @ [ShieldExit]\<rparr>)" e c True, OF sh]
    by (auto simp add: seg_def inv_tr)
  have put: "seg (inv n b) (\<lambda>w. (w\<lparr>st := (st w)\<lparr>status := Executing\<rparr>\<rparr>,
                                           Susp (Exit False)
                                             (\<lambda>w. (w\<lparr>tr := tr w @ [QueuePut
                                                      (TaskResultReady (c_task_id c) hashes fs)]\<rparr>,
                                                   Susp (Call False) (K None)))))" for hashes fs
    using K by (auto intro!: segI inv_st inv_tr)
  have loc: "seg (inv n b) (case r of
                                   Inl x \<Rightarrow>
                                     if x = TaskInvalid then
                                       (\<lambda>w. report_error_co e c True
                                              (\<lambda>r w. K r (w\<lparr>tr := tr w @ [ShieldExit]\<rparr>))
                                              (w\<lparr>tr := tr w @ [ShieldEnter 60]\<rparr>))
                                     else K (Some x)
                                 | Inr (hashes, fs) \<Rightarrow>
                                     (\<lambda>w. (w\<lparr>st := (st w)\<lparr>status := Executing\<rparr>\<rparr>,
                                           Susp (Exit False)
                                             (\<lambda>w. (w\<lparr>tr := tr w @ [QueuePut
                                                      (TaskResultReady (c_task_id c) hashes fs)]\<rparr>,
                                                   Susp (Call False) (K None))))))" for r
    using K rep put by (simp split: sum.split prod.split)
  have dis: "seg (inv n b) (case r of
                                   Some x \<Rightarrow> K (Some x)
                                 | None \<Rightarrow>
                                     (\<lambda>w. (w\<lparr>st := (st w)\<lparr>status := Executing\<rparr>\<rparr>,
                                           Susp (Exit False) (K None))))" for r
    using K by (auto intro!: segI inv_st split: option.split dest: segD)
  have run: "seg (inv n b) (\<lambda>w. if c_distributed c then
                             (w\<lparr>tr := tr w @ [RunDistributed tid]\<rparr>,
                              Susp (Call False)
                                (case run_distributed_task e (tr w) tid of
                                   Some x \<Rightarrow> K (Some x)
                                 | None \<Rightarrow>
                                     (\<lambda>w. (w\<lparr>st := (st w)\<lparr>status := Executing\<rparr>\<rparr>,
                                           Susp (Exit False) (K None)))))
                           else
                             (w\<lparr>tr := tr w @ [RunLocal tid]\<rparr>,
                              Susp (Call False)
                                (case run_local_task e (tr w) tid of
                                   Inl x \<Rightarrow>
                                     if x = TaskInvalid then
                                       (\<lambda>w. report_error_co e c True
                                              (\<lambda>r w. K r (w\<lparr>tr := tr w @ [ShieldExit]\<rparr>))
                                              (w\<lparr>tr := tr w @ [ShieldEnter 60]\<rparr>))
                                     else K (Some x)
                                 | Inr (hashes, fs) \<Rightarrow>
                                     (\<lambda>w. (w\<lparr>st := (st w)\<lparr>status := Executing\<rparr>\<rparr>,
                                           Susp (Exit False)
                                             (\<lambda>w. (w\<lparr>tr := tr w @ [QueuePut
                                                      (TaskResultReady (c_task_id c) hashes fs)]\<rparr>,
                                                   Susp (Call False) (K None))))))))"
    using loc dis by (auto intro!: segI inv_tr)
  have rel: "seg (inv n b) (case r of Some x \<Rightarrow> K (Some x) | None \<Rightarrow> k)" if "seg (inv n b) k" for r k
    using K that by (simp split: option.split)
  show ?thesis
    unfolding task_created_co_def
    apply simp
    apply (rule segI)
    apply (simp add: inv_st)
    apply (rule segI)
    apply (simp add: inv_tr)
    apply (rule rel)
    apply (rule run)
    done
qed

lemma keeps_result_ready:
  assumes K: "\<And>r. seg (inv n b) (K r)"
  shows "keeps (inv n b) (result_ready_co e c hashes fs K)"
proof -
  note up = seg_uploaded [of n b K fs, OF K]
  have ex: "seg (inv n b) (\<lambda>u. (u, Susp (Exit False) (K r)))" for r
    using K by (rule seg_exitK)
  have rep: "seg (inv n b) (report_error_co e c False (\<lambda>r u. (u, Susp (Exit False) (K r))))"
    using ex by (rule seg_report)
  have k: "seg (inv n b) (\<lambda>v. case r of
                     None \<Rightarrow> result_uploaded_co fs K (v\<lparr>st := (st v)\<lparr>result := res\<rparr>\<rparr>)
                   | Some x \<Rightarrow>
                       if is_revert x then
                         (if str_in ''Task is aborted'' (reason x) then
                            report_error_co e c False (\<lambda>r u. (u, Susp (Exit False) (K r))) v
                          else result_uploaded_co fs K (v\<lparr>st := (st v)\<lparr>result := res\<rparr>\<rparr>))
                       else (v, Susp (Exit False) (K (Some x))))" for r res
  proof (rule segI)
    fix w assume w: "inv n b w"
    then have "inv n b (w\<lparr>st := (st w)\<lparr>result := res\<rparr>\<rparr>)" by (simp add: inv_st)
    from segD [OF up this] segD [OF rep w] segD [OF ex w]
    show "inv n b (fst (case r of
                     None \<Rightarrow> result_uploaded_co fs K (w\<lparr>st := (st w)\<lparr>result := res\<rparr>\<rparr>)
                   | Some x \<Rightarrow>
                       if is_revert x then
                         (if str_in ''Task is aborted'' (reason x) then
                            report_error_co e c False (\<lambda>r u. (u, Susp (Exit False) (K r))) w
                          else result_uploaded_co fs K (w\<lparr>st := (st w)\<lparr>result := res\<rparr>\<rparr>))
                       else (w, Susp (Exit False) (K (Some x))))) \<and>
       keeps (inv n b) (snd (case r of
                     None \<Rightarrow> result_uploaded_co fs K (w\<lparr>st := (st w)\<lparr>result := res\<rparr>\<rparr>)
                   | Some x \<Rightarrow>
                       if is_revert x then
                         (if str_in ''Task is aborted'' (reason x) then
                            report_error_co e c False (\<lambda>r u. (u, Susp (Exit False) (K r))) w
                          else result_uploaded_co fs K (w\<lparr>st := (st w)\<lparr>result := res\<rparr>\<rparr>))
                       else (w, Susp (Exit False) (K (Some x)))))"
      by (simp split: option.split)
  qed
  show ?thesis
    unfolding result_ready_co_def
    apply simp
    apply (rule segI)
    apply (simp split: prod.split)
    apply (intro conjI impI allI)
    using seg_call [of n b _ e False, OF k] apply (simp add: seg_def)
    using seg_call [of n b _ e False, OF k] apply (simp add: seg_def)
    using up apply (simp add: seg_def)
    using up apply (simp add: seg_def)
    done
qed

lemma keeps_commitment_ready:
  assumes K: "\<And>r. seg (inv n b) (K r)"
  shows "keeps (inv n b) (commitment_ready_co e c K)"
proof -
  have k: "seg (inv n b) (\<lambda>v. case r of
                   Some x \<Rightarrow> (v, Susp (Exit False) (K (Some x)))
                 | None \<Rightarrow>
                     (v\<lparr>st := (st v)\<lparr>disclosed := True, status := Disclosed\<rparr>\<rparr>,
                      Susp (Exit False) (K None)))" for r
    using K by (auto intro!: segI inv_st split: option.split)
  show ?thesis
    unfolding commitment_ready_co_def
    apply simp
    apply (rule segI)
    using seg_call [of n b _ e False, OF k] K
    apply (simp add: seg_def inv_st)
    done
qed

lemma keeps_task_success:
  assumes K: "\<And>r. seg (inv n b) (K r)"
  shows "keeps (inv n b) (task_success_co e c node K)"
proof -
  have k: "seg (inv n b) (\<lambda>u. case r of
                                Some x \<Rightarrow> (u, Susp (Exit False) (K (Some x)))
                              | None \<Rightarrow>
                                  (u\<lparr>st := (st u)\<lparr>status := Success\<rparr>\<rparr>,
                                   Susp (Exit False) (K None)))" for r
    using K by (auto intro!: segI inv_st split: option.split)
  have up: "seg (inv n b) (case r of
                    Some x \<Rightarrow> (\<lambda>v. (v, Susp (Exit False) (K (Some x))))
                  | None \<Rightarrow>
                      (\<lambda>v. call_task_contract_method_co e False ''reportResultsUploaded''
                             (CallArgs (c_task_id c) (round_no (st v)) [])
                             (\<lambda>r u. case r of
                                Some x \<Rightarrow> (u, Susp (Exit False) (K (Some x)))
                              | None \<Rightarrow>
                                  (u\<lparr>st := (st u)\<lparr>status := Success\<rparr>\<rparr>,
                                   Susp (Exit False) (K None)))
                             v))" for r
    using seg_call [of n b _ e False, OF k] K
    by (auto simp add: seg_def split: option.split)
  show ?thesis
    unfolding task_success_co_def
    apply simp
    apply (rule segI)
    using up K
    apply (simp add: inv_st inv_tr)
    done
qed

lemma keeps_task_aborted:
  assumes K: "\<And>r. seg (inv n b) (K r)"
  shows "keeps (inv n b) (task_aborted_co K)"
  using K by (auto simp add: task_aborted_co_def intro!: segI inv_st)

lemma seg_acked: "seg (inv n b) (acked a fin r)"
  by (auto simp add: acked_def inv_tr intro!: segI keeps.intros split: option.split)

lemma keeps_run_event: "keeps (inv n b) (run_event e c a ev)"
  by (cases ev)
    (auto intro!: keeps_task_created keeps_result_ready keeps_commitment_ready
       keeps_task_success keeps_task_aborted seg_acked segI keeps.intros)

lemma settle_keeps:
  assumes ex: "\<And>w. P w \<Longrightarrow> P (state_context_exit w)"
    and "P w" and "keeps P t" and "settle h (w, t) = (h', w', t')"
  shows "P w' \<and> keeps P t'"
proof (cases t)
  case (Susp a k)
  with assms show ?thesis
    by (cases a) (auto simp add: settle_def split: if_splits)
qed (use assms in \<open>auto simp add: settle_def\<close>)

lemma resume_keeps:
  assumes ex: "\<And>w. P w \<Longrightarrow> P (state_context_exit w)"
    and w: "P w" and t: "keeps P t" and r: "resume h w t = Some (h', w', t')"
  shows "P w' \<and> keeps P t'"
proof (cases t)
  case (Susp a k)
  from t Susp have k: "seg P k" by simp
  obtain v u where kw: "k w = (v, u)" by force
  from segD [OF k w] kw have vu: "P v" "keeps P u" by simp_all
  show ?thesis
  proof (cases a)
    case (Gate s)
    with r Susp kw have "settle h (v, u) = (h', w', t')" by (simp split: if_splits)
    from settle_keeps [of P, OF ex vu this] show ?thesis .
  next
    case Start
    with r Susp kw have "settle h (v, u) = (h', w', t')" by simp
    from settle_keeps [of P, OF ex vu this] show ?thesis .
  next
    case (Call sh)
    with r Susp kw have "settle h (v, u) = (h', w', t')" by simp
    from settle_keeps [of P, OF ex vu this] show ?thesis .
  next
    case (Exit sh)
    with r Susp have "settle h (w, t) = (h', w', t')" by (simp split: if_splits)
    from settle_keeps [of P, OF ex w t this] show ?thesis .
  next
    case InDump
    with r Susp kw have "settle False (v, u) = (h', w', t')" by simp
    from settle_keeps [of P, OF ex vu this] show ?thesis .
  qed
qed (use r in simp_all)

lemma map_of_task: "map_of ts a = Some (ev, t) \<Longrightarrow> (a, ev, t) \<in> set ts"
  by (rule map_of_SomeD)

lemma set_task_keeps:
  "\<forall>x\<in>set ts. keeps P (snd (snd x)) \<Longrightarrow> keeps P t \<Longrightarrow> \<forall>x\<in>set (set_task a t ts). keeps P (snd (snd x))"
  by (induction ts) auto

lemma drop_task_keeps:
  "\<forall>x\<in>set ts. keeps P (snd (snd x)) \<Longrightarrow> \<forall>x\<in>set (drop_task a ts). keeps P (snd (snd x))"
  by (induction ts) auto

lemma good_drop:
  "good P p \<Longrightarrow> P w \<Longrightarrow> good P (p\<lparr>wld := w, held := h, tasks := drop_task a (tasks p)\<rparr>)"
  using drop_task_keeps [of "tasks p" P a] by (simp add: good_def)

lemma good_drop_inbox:
  "good P p \<Longrightarrow> P w \<Longrightarrow>
     good P (p\<lparr>wld := w, held := h, tasks := drop_task a (tasks p), inbox := q\<rparr>)"
  using drop_task_keeps [of "tasks p" P a] by (simp add: good_def)

lemma good_set:
  "good P p \<Longrightarrow> P w \<Longrightarrow> keeps P t \<Longrightarrow>
     good P (p\<lparr>wld := w, held := h, tasks := set_task a t (tasks p)\<rparr>)"
  using set_task_keeps [of "tasks p" P t a] by (simp add: good_def)

lemma good_cancel: "good P p \<Longrightarrow> good P (cancel_tasks p)"
  by (simp add: good_def cancel_tasks_def)

lemma cancel_same [simp]: "wld (cancel_tasks p) = wld p" "held (cancel_tasks p) = held p"
  by (simp_all add: cancel_tasks_def)

lemma wind_down_keeps:
  assumes ex: "\<And>w. P w \<Longrightarrow> P (state_context_exit w)"
  shows "good P p \<Longrightarrow> wind_down s x p = (y, p') \<Longrightarrow> P (wld p')"
proof (induction s arbitrary: x p)
  case Nil
  then show ?case by (auto simp add: good_def end_tasks_def)
next
  case (Cons ch rest)
  let ?q = "cancel_tasks p"
  from Cons.prems(1) have gq: "good P ?q" by (rule good_cancel)
  show ?case
  proof (cases "tasks ?q = []")
    case True
    with Cons.prems show ?thesis by (auto simp add: good_def)
  next
    case False
    show ?thesis
    proof (cases ch)
      case Receive
      with Cons.prems(2) False have "wind_down rest x ?q = (y, p')" by simp
      from Cons.IH [OF gq this] show ?thesis .
    next
      case (Resume a)
      show ?thesis
      proof (cases "map_of (tasks ?q) a")
        case None
        with Cons.prems(2) False Resume have "wind_down rest x ?q = (y, p')" by simp
        from Cons.IH [OF gq this] show ?thesis .
      next
        case (Some et)
        obtain ev t where et: "et = (ev, t)" by force
        from map_of_task Some et have "(a, ev, t) \<in> set (tasks ?q)" by fast
        with gq have kt: "keeps P t" by (auto simp add: good_def)
        from gq have pw: "P (wld p)" by (simp add: good_def)
        show ?thesis
        proof (cases "resume (held p) (wld p) t")
          case None
          with Cons.prems(2) False Resume Some et have "wind_down rest x ?q = (y, p')" by simp
          from Cons.IH [OF gq this] show ?thesis .
        next
          case (Some hwt)
          obtain h w t' where hwt: "hwt = (h, w, t')" by (metis prod_cases3)
          from resume_keeps [of P, OF ex pw kt] Some hwt have n: "P w" "keeps P t'" by simp_all
          show ?thesis
          proof (cases t')
            case (Ret fin)
            let ?n = "?q\<lparr>wld := w, held := h, tasks := drop_task a (tasks ?q)\<rparr>"
            from gq n have "good P ?n" by (simp add: good_drop good_drop_inbox)
            moreover from Cons.prems(2) False Resume \<open>map_of (tasks ?q) a = Some et\<close> et Some hwt Ret
            have "wind_down rest x ?n = (y, p')" by simp
            ultimately show ?thesis by (rule Cons.IH)
          next
            case (Exc z)
            let ?n = "?q\<lparr>wld := w, held := h, tasks := drop_task a (tasks ?q),
                            inbox := inbox ?q @ [(a, ev)]\<rparr>"
            from gq n have "good P ?n" by (simp add: good_drop good_drop_inbox)
            moreover from Cons.prems(2) False Resume \<open>map_of (tasks ?q) a = Some et\<close> et Some hwt Exc
            have "wind_down rest (case x of None \<Rightarrow> Some z | Some z' \<Rightarrow> Some z') ?n = (y, p')" by simp
            ultimately show ?thesis by (rule Cons.IH)
          next
            case (Susp aw k)
            let ?n = "?q\<lparr>wld := w, held := h, tasks := set_task a (Susp aw k) (tasks ?q)\<rparr>"
            from gq n Susp have "good P ?n" by (simp add: good_set)
            moreover from Cons.prems(2) False Resume \<open>map_of (tasks ?q) a = Some et\<close> et Some hwt Susp
            have "wind_down rest x ?n = (y, p')" by simp
            ultimately show ?thesis by (rule Cons.IH)
          qed
        qed
      qed
    qed
  qed
qed

lemma run_loop_keeps:
  assumes ex: "\<And>w. P w \<Longrightarrow> P (state_context_exit w)"
    and ev: "\<And>a ev. keeps P (run_event e c a ev)"
  shows "good P p \<Longrightarrow> run_loop e c s p = (y, p') \<Longrightarrow> P (wld p')"
proof (induction s arbitrary: p)
  case Nil
  then have "wind_down []
       (Some (case interrupt e (tr (wld p)) of Some x \<Rightarrow> x | None \<Rightarrow> TimeoutError)) p = (y, p')"
    by simp
  from wind_down_keeps [of P, OF ex Nil.prems(1) this] show ?case .
next
  case (Cons ch rest)
  from Cons.prems(1) have pw: "P (wld p)" by (simp add: good_def)
  show ?case
  proof (cases "interrupt e (tr (wld p))")
    case (Some z)
    with Cons.prems(2) have "wind_down (ch # rest) (Some z) p = (y, p')" by simp
    from wind_down_keeps [of P, OF ex Cons.prems(1) this] show ?thesis .
  next
    case None
    show ?thesis
    proof (cases ch)
      case Receive
      show ?thesis
      proof (cases "inbox p")
        case Nil
        with Cons.prems(2) None Receive have "run_loop e c rest p = (y, p')" by simp
        from Cons.IH [OF Cons.prems(1) this] show ?thesis .
      next
        case (Cons q others)
        let ?n = "p\<lparr>inbox := others,
                         tasks := tasks p @ [(fst q, snd q, run_event e c (fst q) (snd q))]\<rparr>"
        from Cons.prems(1) ev have "good P ?n" by (simp add: good_def)
        moreover from Cons.prems(2) None Receive Cons have "run_loop e c rest ?n = (y, p')" by simp
        ultimately show ?thesis by (rule Cons.IH)
      qed
    next
      case (Resume a)
      show ?thesis
      proof (cases "map_of (tasks p) a")
        case None
        with Cons.prems(2) \<open>interrupt e (tr (wld p)) = None\<close> Resume
        have "run_loop e c rest p = (y, p')" by simp
        from Cons.IH [OF Cons.prems(1) this] show ?thesis .
      next
        case (Some et)
        obtain ev' t where et: "et = (ev', t)" by force
        from map_of_task Some et have "(a, ev', t) \<in> set (tasks p)" by fast
        with Cons.prems(1) have kt: "keeps P t" by (auto simp add: good_def)
        show ?thesis
        proof (cases "resume (held p) (wld p) t")
          case None
          with Cons.prems(2) \<open>interrupt e (tr (wld p)) = None\<close> Resume Some et
          have "run_loop e c rest p = (y, p')" by simp
          from Cons.IH [OF Cons.prems(1) this] show ?thesis .
        next
          case (Some hwt)
          obtain h w t' where hwt: "hwt = (h, w, t')" by (metis prod_cases3)
          from resume_keeps [of P, OF ex pw kt] Some hwt have n: "P w" "keeps P t'" by simp_all
          note facts = Cons.prems(2) \<open>interrupt e (tr (wld p)) = None\<close> Resume
            \<open>map_of (tasks p) a = Some et\<close> et Some hwt
          show ?thesis
          proof (cases t')
            case (Ret fin)
            let ?n = "p\<lparr>wld := w, held := h, tasks := drop_task a (tasks p)\<rparr>"
            from Cons.prems(1) n have g: "good P ?n" by (simp add: good_drop good_drop_inbox)
            show ?thesis
            proof (cases fin)
              case True
              with facts Ret have "wind_down rest None ?n = (y, p')" by simp
              from wind_down_keeps [of P, OF ex g this] show ?thesis .
            next
              case False
              with facts Ret have "run_loop e c rest ?n = (y, p')" by simp
              from Cons.IH [OF g this] show ?thesis .
            qed
          next
            case (Exc z)
            let ?n = "p\<lparr>wld := w, held := h, tasks := drop_task a (tasks p),
                              inbox := inbox p @ [(a, ev')]\<rparr>"
            from Cons.prems(1) n have g: "good P ?n" by (simp add: good_drop good_drop_inbox)
            from facts Exc have "wind_down rest (Some z) ?n = (y, p')" by simp
            from wind_down_keeps [of P, OF ex g this] show ?thesis .
          next
            case (Susp aw k)
            let ?n = "p\<lparr>wld := w, held := h, tasks := set_task a (Susp aw k) (tasks p)\<rparr>"
            from Cons.prems(1) n Susp have g: "good P ?n" by (simp add: good_set)
            from facts Susp have "run_loop e c rest ?n = (y, p')" by simp
            from Cons.IH [OF g this] show ?thesis .
          qed
        qed
      qed
    qed
  qed
qed

lemma inv_run_loop:
  assumes "inv n b w" and "run_loop e c s \<lparr>wld = w, held = False, tasks = [], inbox = dq\<rparr> = (y, p')"
  shows "inv n b (wld p')"
proof -
  have "good (inv n b) \<lparr>wld = w, held = False, tasks = [], inbox = dq\<rparr>"
    using assms(1) by (simp add: good_def)
  from run_loop_keeps [of "inv n b" e c, OF inv_exit keeps_run_event this assms(2)]
  show ?thesis .
qed

subsection \<open>The handlers are the tasks run on their own\<close>

lemma run_alone_simps [simp]:
  "run_alone (w, Ret b) = (Returned b, w)"
  "run_alone (w, Exc x) = (Raised x, w)"
  "run_alone (w, Susp (Gate s) k) = (if status (st w) = s then run_alone (k w) else (Blocked, w))"
  "run_alone (w, Susp Start k) = run_alone (k w)"
  "run_alone (w, Susp (Call sh) k) = run_alone (k w)"
  "run_alone (w, Susp (Exit sh) k) = run_alone (k (state_context_exit w))"
  "run_alone (w, Susp InDump k) = run_alone (k w)"
  by (simp_all add: run_alone_def map_prod_def split: prod.split)

lemma alone_wait:
  "run_alone (wait_and_clear_co e sh h K w) =
     (case wait_and_clear e h w of (r, w') \<Rightarrow> run_alone (K r w'))"
  by (simp add: wait_and_clear_co_def wait_and_clear_def state_context_exit_def split: option.split)

lemma alone_call:
  "run_alone (call_task_contract_method_co e sh m a K w) =
     (case call_task_contract_method e m a w of (r, w') \<Rightarrow> run_alone (K r w'))"
  by (simp add: call_task_contract_method_co_def call_task_contract_method_def alone_wait
      split: sum.split)

lemma alone_report:
  "run_alone (report_error_co e c sh K w) =
     (case report_error e c w of (r, w') \<Rightarrow> run_alone (K r w'))"
  by (simp add: report_error_co_def report_error_def alone_call Let_def split: prod.split option.split)

lemma alone_result_ready:
  "run_alone (w, result_ready_co e c hs fs ended) = returning (result_ready e c hs fs w)"
  by (simp add: result_ready_co_def result_ready_def result_uploaded_co_def result_uploaded_def
      alone_call alone_report ended_def returning_def lift_res_def
      split: prod.split option.split)

lemma alone_commitment_ready:
  "run_alone (w, commitment_ready_co e c ended) = returning (commitment_ready e c w)"
  by (simp add: commitment_ready_co_def commitment_ready_def
      alone_call ended_def returning_def
      split: prod.split option.split)

lemma alone_task_success:
  "run_alone (w, task_success_co e c node ended) = returning (task_success e c node w)"
  by (simp add: task_success_co_def task_success_def
      alone_call ended_def returning_def Let_def
      split: prod.split option.split)

lemma alone_task_aborted:
  "run_alone (w, task_aborted_co ended) = returning (task_aborted w)"
  by (simp add: task_aborted_co_def task_aborted_def ended_def returning_def)

lemma alone_task_created:
  "run_alone (w, task_created_co e c tid rnd ended) = returning (task_created e c tid rnd w)"
  by (simp add: task_created_co_def task_created_def
      alone_report ended_def returning_def Let_def lift_res_def state_context_exit_def
      split: prod.split option.split sum.split)

subsection \<open>What a run keeps\<close>

lemma init_state_set: "init e c r = (res, r') \<Longrightarrow> \<exists>s. state r' = Some s"
  by (auto simp add: init_def init_exit_def split: prod.splits if_splits sum.splits option.splits)

lemma cancels_init: "init e c r = (res, r') \<Longrightarrow> cancels (trace r') = cancels (trace r)"
  by (auto simp add: init_def init_exit_def split: prod.splits if_splits sum.splits option.splits)

lemma no_tx_new_state [simp]: "no_tx (new_state n)"
  by (simp add: no_tx_def new_state_def)

lemma no_tx_update [simp]:
  "no_tx (s\<lparr>status := a\<rparr>) = no_tx s" "no_tx (s\<lparr>timeout := b\<rparr>) = no_tx s"
  by (simp_all add: no_tx_def)

lemma idle_init:
  assumes "init e c r = (res, r')" and "idle_runner r"
  shows "idle_runner r'"
proof -
  obtain s nd where l: "load_state c r = (s, nd)" by force
  with assms(2) have s: "no_tx s"
    by (auto simp add: load_state_def idle_runner_def split: option.splits)
  have x: "idle_runner (init_exit r s' b t)"
    if "no_tx s'" and "\<forall>u. Dump u \<in> set t \<longrightarrow> no_tx u" for s' b t
    using that assms(2) by (auto simp add: init_exit_def idle_runner_def)
  have t: "\<forall>u. Dump u \<in> set (trace r) \<longrightarrow> no_tx u"
    "\<forall>u. Dump u \<in> set (trace r @ [GetTask (c_task_id c)]) \<longrightarrow> no_tx u"
    using assms(2) by (auto simp add: idle_runner_def)
  from assms(1) l s t show ?thesis
    by (auto simp add: init_def intro!: x split: if_splits sum.splits option.splits)
qed

lemma run_try_cases:
  assumes "run_try e c r = (x, r1)"
  obtains (stopped) res where "init e c r = (res, r1)"
  | (looped) s0 r0 p where "init e c r = (Inr True, r0)" "state r0 = Some s0"
      "run_loop e c (schedule e)
          \<lparr>wld = \<lparr>st = s0, cached = cache r0, tr = trace r0\<rparr>, held = False, tasks = [],
           inbox = deque r0\<rparr> = (x, p)"
      "r1 = r0\<lparr>state := Some (st (wld p)), cache := cached (wld p),
                               trace := tr (wld p), deque := inbox p\<rparr>"
proof -
  obtain res r0 where i: "init e c r = (res, r0)" by force
  from init_state_set [OF i] obtain s0 where s0: "state r0 = Some s0" by blast
  show thesis
  proof (cases res)
    case (Inl y)
    with assms i have "r1 = r0" by (simp add: run_try_def)
    with i show thesis by (auto intro: stopped)
  next
    case (Inr ok)
    show thesis
    proof (cases "ok \<and> \<not> real_of_int (timeout s0) - now e (trace r0) \<le> 0")
      case False
      with assms i s0 Inr have "r1 = r0" by (simp add: run_try_def split: if_splits)
      with i show thesis by (auto intro: stopped)
    next
      case True
      obtain y p where l: "run_loop e c (schedule e)
          \<lparr>wld = \<lparr>st = s0, cached = cache r0, tr = trace r0\<rparr>, held = False, tasks = [],
           inbox = deque r0\<rparr> = (y, p)"
        by force
      from assms i s0 Inr True l
      have "x = y" "r1 = r0\<lparr>state := Some (st (wld p)), cache := cached (wld p),
                               trace := tr (wld p), deque := inbox p\<rparr>"
        by (simp_all add: run_try_def)
      with i Inr True s0 l show thesis by (auto intro: looped)
    qed
  qed
qed

lemma run_try_keeps:
  assumes a: "run_try e c r = (x, r1)"
  shows "cancels (trace r1) = cancels (trace r)" and "\<exists>s. state r1 = Some s"
    and "idle_runner r \<Longrightarrow> idle_runner r1"
proof -
  have "cancels (trace r1) = cancels (trace r) \<and> (\<exists>s. state r1 = Some s)
      \<and> (idle_runner r \<longrightarrow> idle_runner r1)"
    using a
  proof (cases rule: run_try_cases)
    case (stopped res)
    from init_state_set [OF stopped] cancels_init [OF stopped] idle_init [OF stopped]
    show ?thesis by blast
  next
    case (looped s0 r0 p)
    let ?w = "\<lparr>st = s0, cached = cache r0, tr = trace r0\<rparr>"
    have "inv (cancels (trace r0)) (idle_runner r0) ?w"
      using looped(2) by (simp add: inv_def idle_def idle_runner_def)
    from inv_run_loop [OF this looped(3)]
    have k: "cancels (tr (wld p)) = cancels (trace r0)" "idle_runner r0 \<longrightarrow> idle (wld p)"
      by (simp_all add: inv_def)
    have t1: "trace r1 = tr (wld p)" and s1: "state r1 = Some (st (wld p))"
      and c1: "cache r1 = cached (wld p)"
      by (simp_all add: looped(4))
    have "idle_runner r1" if "idle_runner r0"
    proof -
      from that k(2) have "idle (wld p)" by simp
      then show ?thesis
        unfolding idle_def idle_runner_def t1 s1 c1 by simp
    qed
    moreover have "cancels (trace r1) = cancels (trace r)"
      using k(1) cancels_init [OF looped(1)] t1 by simp
    moreover have "\<exists>s. state r1 = Some s"
      using s1 by simp
    moreover note idle_init [OF looped(1)]
    ultimately show ?thesis by blast
  qed
  then show "cancels (trace r1) = cancels (trace r)" and "\<exists>s. state r1 = Some s"
    and "idle_runner r \<Longrightarrow> idle_runner r1"
    by simp_all
qed

lemma drain_not_terminal:
  "\<not> terminal r \<Longrightarrow> drain c r =
     (None, r\<lparr>trace := trace r @ ShieldEnter 10 # map (\<lambda>p. NoAck (fst p)) (deque r) @ [ShieldExit]\<rparr>)"
  by (simp add: drain_def)

lemma cancels_map_ack [simp]: "cancels (map (\<lambda>p. Ack (fst p)) xs) = 0"
  by (induction xs) simp_all

lemma cancels_map_noack [simp]: "cancels (map (\<lambda>p. NoAck (fst p)) xs) = 0"
  by (induction xs) simp_all



lemma idle_drain: "drain c r = (x, r') \<Longrightarrow> idle_runner r \<Longrightarrow> idle_runner r'"
  by (auto simp add: drain_def cleanup_def idle_runner_def
      split: if_splits prod.splits option.splits)

lemma idle_run_except:
  "run_except e c (y, r1) = (x, r2) \<Longrightarrow> idle_runner r1 \<Longrightarrow> idle_runner r2"
  by (auto simp add: run_except_def deadline_path_def cancel_task_def idle_runner_def
      split: if_splits prod.splits option.splits)

text \<open>
  Nothing in the runner assigns the two waiting fields a value other than the empty
  one. So a runner that starts without a transaction recorded as in flight (a new
  task, or a cache entry that a runner has written) never has one: not in its state,
  not in its cache entry, not in any state it dumps, whatever the order in which its
  tasks take their turns.
\<close>

lemma run_keeps_no_tx:
  assumes "run e c r = (x, r')" and "idle_runner r"
  shows "idle_runner r'"
proof -
  obtain y r1 where t: "run_try e c r = (y, r1)" by force
  obtain z r2 where u: "run_except e c (y, r1) = (z, r2)" by force
  obtain d r3 where d: "drain c r2 = (d, r3)" by force
  from assms(1) t u d have "r' = r3" by (auto simp add: run_def split: option.splits)
  with idle_drain [OF d idle_run_except [OF u run_try_keeps(3) [OF t assms(2)]]]
  show ?thesis by simp
qed

subsection \<open>A call that reverts\<close>



subsection \<open>The commitment that reverts because the task is aborted\<close>



subsection \<open>The deadline\<close>



subsection \<open>init\<close>

text \<open>
  C8. Let \<open>s\<close> be the state \<open>init\<close> starts from: the state of the runner when it is set,
  else the cache entry of the task when there is one, else a new state (which has to
  be dumped). When the status of \<open>s\<close> is Success or Aborted, \<open>init\<close> returns \<open>False\<close> (skip) and
  keeps \<open>s\<close>, and the chain is not asked. Otherwise, when the chain answers with a task whose
  id is zero or is not the task id, \<open>init\<close> returns \<open>False\<close> and the state is \<open>s\<close> with status
  Aborted; when it answers with the task, \<open>init\<close> returns \<open>True\<close> and the state is \<open>s\<close> with the
  timeout of the chain. Whatever \<open>init\<close> returns or raises, a state that is new or differs
  from \<open>s\<close> is in the cache and its dump is the last action. When \<open>init\<close> returns \<open>False\<close>, the
  \<open>try\<close> block of \<open>run\<close> ends at once.
\<close>

theorem init_skips_or_copies_timeout:
  assumes "init e c r = (res, r')"
    and "state r = Some s \<and> \<not> nd
       \<or> state r = None \<and> cache r = Some s \<and> \<not> nd
       \<or> state r = None \<and> cache r = None \<and> s = new_state (c_task_id c) \<and> nd"
  shows "(status s = Success \<or> status s = Aborted \<longrightarrow>
            res = Inr False \<and> state r' = Some s \<and> trace r' = trace r @ (if nd then [Dump s] else []))
    \<and> (status s \<noteq> Success \<and> status s \<noteq> Aborted \<longrightarrow>
        (\<forall>t. chain_get_task e (trace r) (c_task_id c) = Inr t \<longrightarrow>
           (if ct_id t = 0 \<or> ct_id t \<noteq> c_task_id c
            then res = Inr False \<and> state r' = Some (s\<lparr>status := Aborted\<rparr>)
            else res = Inr True \<and> state r' = Some (s\<lparr>timeout := ct_timeout t\<rparr>))))
    \<and> (\<forall>s'. state r' = Some s' \<and> (s' \<noteq> s \<or> nd) \<longrightarrow>
          cache r' = Some s' \<and> (\<exists>t. trace r' = t @ [Dump s']))
    \<and> (\<exists>s'. state r' = Some s')
    \<and> (res = Inr False \<longrightarrow> run_try e c r = (None, r'))"
proof -
  from assms(2) have l: "load_state c r = (s, nd)"
    by (auto simp add: load_state_def)
  from assms(1) l show ?thesis
    by (auto simp add: init_def init_exit_def get_task_def run_try_def
        split: if_splits sum.splits option.splits)
qed

theorem init_skips_or_copies_timeout_witness:
  "fst (init (env_of None) cfg7
          (runner_of (Some (state_of Success [0xAA, 0xBB] [] [])) [(1, TaskCreated 7 2)])) = Inr False
   \<and> state (snd (init (env_of None) cfg7
          (runner_of (Some (state_of Success [0xAA, 0xBB] [] [])) [(1, TaskCreated 7 2)]))) =
       Some (state_of Success [0xAA, 0xBB] [] [])
   \<and> trace (snd (init (env_of None) cfg7
          (runner_of (Some (state_of Success [0xAA, 0xBB] [] [])) [(1, TaskCreated 7 2)]))) = []
   \<and> run_try (env_of None) cfg7
        (runner_of (Some (state_of Success [0xAA, 0xBB] [] [])) [(1, TaskCreated 7 2)]) =
       (None, snd (init (env_of None) cfg7
          (runner_of (Some (state_of Success [0xAA, 0xBB] [] [])) [(1, TaskCreated 7 2)])))
   \<and> fst (init (env_of None) cfg7 (runner_of None [])) = Inr True
   \<and> state (snd (init (env_of None) cfg7 (runner_of None []))) =
       Some ((new_state 7)\<lparr>timeout := 900\<rparr>)
   \<and> cache (snd (init (env_of None) cfg7 (runner_of None []))) =
       Some ((new_state 7)\<lparr>timeout := 900\<rparr>)"
proof -
  let ?s = "state_of Success [0xAA, 0xBB] [] []"
  let ?r = "runner_of (Some ?s) [(1, TaskCreated 7 2)]"
  let ?j = "init (env_of None) cfg7 ?r"
  let ?i = "init (env_of None) cfg7 (runner_of None [])"
  have j: "?j = (fst ?j, snd ?j)"
    by simp
  have c: "state ?r = Some ?s \<and> \<not> False
       \<or> state ?r = None \<and> cache ?r = Some ?s \<and> \<not> False
       \<or> state ?r = None \<and> cache ?r = None \<and> ?s = new_state (c_task_id cfg7) \<and> False"
    by (simp add: runner_of_def)
  have f: "status ?s = Success"
    by (simp add: state_of_def)
  have t: "trace ?r = []"
    by (simp add: runner_of_def)
  note a = init_skips_or_copies_timeout [OF j c]
  from a f t have a1: "fst ?j = Inr False" and a2: "state (snd ?j) = Some ?s"
    and a3: "trace (snd ?j) = []"
    and a4: "run_try (env_of None) cfg7 ?r = (None, snd ?j)"
    by simp_all
  have i: "?i = (fst ?i, snd ?i)"
    by simp
  have d: "state (runner_of None []) = Some (new_state 7) \<and> \<not> True
       \<or> state (runner_of None []) = None \<and> cache (runner_of None []) = Some (new_state 7) \<and> \<not> True
       \<or> state (runner_of None []) = None \<and> cache (runner_of None []) = None
          \<and> new_state 7 = new_state (c_task_id cfg7) \<and> True"
    by (simp add: runner_of_def cfg7_def)
  have g: "chain_get_task (env_of None) (trace (runner_of None [])) (c_task_id cfg7) =
      Inr \<lparr>ct_id = 7, ct_timeout = 900\<rparr>"
    by (simp add: env_of_def cfg7_def)
  have n: "status (new_state 7) = Pending" "c_task_id cfg7 = 7"
    by (simp_all add: new_state_def cfg7_def)
  from init_skips_or_copies_timeout [OF i d] g n
  have b: "fst ?i = Inr True" "state (snd ?i) = Some ((new_state 7)\<lparr>timeout := 900\<rparr>)"
    "cache (snd ?i) = Some ((new_state 7)\<lparr>timeout := 900\<rparr>)"
    by auto
  from a1 a2 a3 a4 b show ?thesis
    by simp
qed

subsection \<open>The drain at the exit of run\<close>

text \<open>
  C6. Let \<open>r1\<close> be the runner when the \<open>finally\<close> clause of \<open>run\<close> is entered. When its state is
  set and its status is Aborted or Success, what follows is, inside the shielded
  scope of 10 seconds: one ack for every pair of the deque, in order, and \<open>cleanup\<close> (which
  unwatches the three events, deletes the result files and releases the state,
  unless it has run before). Otherwise it is one no-ack for every pair of the deque,
  inside the same scope. The outcome of \<open>run\<close> is the one of the \<open>try\<close> and \<open>except\<close> part.
\<close>

theorem drain_acks_or_noacks:
  assumes "run_except e c (run_try e c r) = (x, r1)"
  shows "(\<forall>s. state r1 = Some s \<and> (status s = Aborted \<or> status s = Success) \<longrightarrow>
            run e c r =
              (x, r1\<lparr>trace := trace r1 @ ShieldEnter 10 # map (\<lambda>p. Ack (fst p)) (deque r1)
                        @ (if cleaned r1 then []
                           else [Unwatch (c_commitment_watch_id c), Unwatch (c_success_watch_id c),
                                 Unwatch (c_aborted_watch_id c), DeleteResultFiles (files s)])
                        @ [ShieldExit],
                     state := (if cleaned r1 then Some s else None), cleaned := True\<rparr>))
       \<and> ((state r1 = None \<or> (\<exists>s. state r1 = Some s \<and> status s \<noteq> Aborted \<and> status s \<noteq> Success)) \<longrightarrow>
            run e c r =
              (x, r1\<lparr>trace := trace r1 @ ShieldEnter 10 # map (\<lambda>p. NoAck (fst p)) (deque r1)
                        @ [ShieldExit]\<rparr>))"
  using assms
  by (auto simp add: run_def drain_def cleanup_def terminal_def)

theorem drain_acks_or_noacks_witness:
  "run env_late cfg7 (runner_of None [(1, TaskCreated 7 2)]) =
     (None,
      \<lparr>state = None, cache = Some ((new_state 7)\<lparr>timeout := 900, status := Aborted\<rparr>),
       trace = [GetTask 7, Dump ((new_state 7)\<lparr>timeout := 900\<rparr>),
                Dump ((new_state 7)\<lparr>timeout := 900, status := Aborted\<rparr>), CancelTask 7,
                ShieldEnter 10, Ack 1, Unwatch 1, Unwatch 2, Unwatch 3, DeleteResultFiles [],
                ShieldExit],
       deque = [(1, TaskCreated 7 2)], cleaned = True\<rparr>)
   \<and> run env_down cfg7 (runner_of None [(1, TaskCreated 7 2)]) =
     (Some (OtherError ''connection refused''),
      \<lparr>state = Some (new_state 7), cache = Some (new_state 7),
       trace = [GetTask 7, Dump (new_state 7), ShieldEnter 10, NoAck 1, ShieldExit],
       deque = [(1, TaskCreated 7 2)], cleaned = False\<rparr>)"
proof -
  let ?r = "runner_of None [(1, TaskCreated 7 2)]"
  let ?a = "(new_state 7)\<lparr>timeout := 900, status := Aborted\<rparr>"
  have a: "run_except env_late cfg7 (run_try env_late cfg7 ?r) =
      (None,
       \<lparr>state = Some ?a, cache = Some ?a,
        trace = [GetTask 7, Dump ((new_state 7)\<lparr>timeout := 900\<rparr>), Dump ?a, CancelTask 7],
        deque = [(1, TaskCreated 7 2)], cleaned = False\<rparr>)"
    by (simp add: run_except_def run_try_def init_def init_exit_def load_state_def get_task_def
        deadline_path_def cancel_task_def env_late_def env_of_def cfg7_def runner_of_def
        new_state_def)
  have b: "run_except env_down cfg7 (run_try env_down cfg7 ?r) =
      (Some (OtherError ''connection refused''),
       \<lparr>state = Some (new_state 7), cache = Some (new_state 7),
        trace = [GetTask 7, Dump (new_state 7)],
        deque = [(1, TaskCreated 7 2)], cleaned = False\<rparr>)"
    by (simp add: run_except_def run_try_def init_def init_exit_def load_state_def get_task_def
        env_down_def env_of_def cfg7_def runner_of_def new_state_def)
  show ?thesis
    using drain_acks_or_noacks [OF a] drain_acks_or_noacks [OF b]
    by (simp add: new_state_def cfg7_def)
qed

subsection \<open>The order of the statuses\<close>

text \<open>
  C9. The claim: the status only moves forward along Pending, Executing,
  ResultUploaded, Disclosed, Success, or jumps to Aborted, and once it is Success or
  Aborted no handler changes it again. A handler that has passed its gate writes its
  status when it is resumed, whatever the status has become in the meantime. A runner
  with a new task receives TaskCreated and, while the task runs in the worker thread,
  TaskAborted: \<open>task_aborted\<close> sets Aborted, dumps it and acks its event; before it is
  resumed from the ack (after which it cancels the group), the worker thread returns
  and \<open>task_created\<close> sets Executing, dumps it, puts the TaskResultReady event into the
  queue and acks its own event. The statuses dumped are Pending, Pending, Aborted,
  Executing; the run ends without an exception, both events acked, with status
  Executing in the state and in the cache.
\<close>

theorem resumed_task_created_overwrites_aborted:
  "run ((env_of None)\<lparr>schedule := [Receive, Resume 1, Resume 1, Resume 1, Receive, Resume 9,
          Resume 9, Resume 1, Resume 1, Resume 1, Resume 1, Resume 9]\<rparr>) cfg7
       (runner_of None [(1, TaskCreated 7 2), (9, TaskAborted 7)]) =
     (None,
      \<lparr>state = Some ((new_state 7)\<lparr>round_no := 2, timeout := 900, status := Executing\<rparr>),
       cache = Some ((new_state 7)\<lparr>round_no := 2, timeout := 900, status := Executing\<rparr>),
       trace = [GetTask 7, Dump ((new_state 7)\<lparr>timeout := 900\<rparr>),
                Dump ((new_state 7)\<lparr>round_no := 2, timeout := 900\<rparr>),
                RelayGetTask 7, RunLocal 7,
                Dump ((new_state 7)\<lparr>round_no := 2, timeout := 900, status := Aborted\<rparr>),
                Ack 9,
                Dump ((new_state 7)\<lparr>round_no := 2, timeout := 900, status := Executing\<rparr>),
                QueuePut (TaskResultReady 7 [''0xAA'', ''0xBB''] [''a.png'', ''b.png'']),
                Ack 1, ShieldEnter 10, ShieldExit],
       deque = [], cleaned = False\<rparr>)
   \<and> statuses [GetTask 7, Dump ((new_state 7)\<lparr>timeout := 900\<rparr>),
                Dump ((new_state 7)\<lparr>round_no := 2, timeout := 900\<rparr>),
                RelayGetTask 7, RunLocal 7,
                Dump ((new_state 7)\<lparr>round_no := 2, timeout := 900, status := Aborted\<rparr>),
                Ack 9,
                Dump ((new_state 7)\<lparr>round_no := 2, timeout := 900, status := Executing\<rparr>),
                QueuePut (TaskResultReady 7 [''0xAA'', ''0xBB''] [''a.png'', ''b.png'']),
                Ack 1, ShieldEnter 10, ShieldExit] = [Pending, Pending, Aborted, Executing]
   \<and> \<not> status_step Aborted Executing"
  by (simp add: run_def run_except_def run_try_def init_def init_exit_def load_state_def
      get_task_def drain_def cleanup_def terminal_def runner_of_def env_of_def cfg7_def
      new_state_def task_created_co_def task_aborted_co_def acked_def settle_def
      cancel_tasks_def end_tasks_def state_context_exit_def status_step_def)

subsection \<open>Two deliveries of one event\<close>

text \<open>
  C5. The claim: two deliveries of TaskResultCommitmentsReady give exactly one
  submission of \<open>discloseTaskResult\<close>. The handler tests \<open>disclosed\<close> before it awaits the
  contract call and sets it after the receipt; a second handler that passes its gate
  in between finds \<open>disclosed\<close> false and the two waiting fields empty, and submits as
  well. A runner whose cache entry has status ResultUploaded, a result and \<open>disclosed\<close>
  false receives the event twice; both handlers submit before either is resumed; then
  each waits for its receipt, sets \<open>disclosed\<close> and the status, and acks its event. There
  are two submissions. (The run ends with the deadline, no other event being sent.)
\<close>

theorem concurrent_deliveries_disclose_twice:
  "run ((env_of None)\<lparr>schedule := [Receive, Receive, Resume 3, Resume 4, Resume 3, Resume 3,
          Resume 3, Resume 3, Resume 3, Resume 4, Resume 4, Resume 4, Resume 4, Resume 4]\<rparr>) cfg7
       (runner_of (Some (state_of ResultUploaded [0xAA, 0xBB] [] []))
          [(3, TaskResultCommitmentsReady 7), (4, TaskResultCommitmentsReady 7)]) =
     (None,
      \<lparr>state = None,
       cache = Some ((state_of Aborted [0xAA, 0xBB] [] [])\<lparr>disclosed := True\<rparr>),
       trace = [GetTask 7,
                Submit ''discloseTaskResult'' (CallArgs 7 2 [[0xAA, 0xBB]]),
                Submit ''discloseTaskResult'' (CallArgs 7 2 [[0xAA, 0xBB]]),
                WaitReceipt [0xAB],
                Dump (state_of ResultUploaded [0xAA, 0xBB] [] []),
                Dump ((state_of Disclosed [0xAA, 0xBB] [] [])\<lparr>disclosed := True\<rparr>),
                Ack 3,
                WaitReceipt [0xAB],
                Dump ((state_of Disclosed [0xAA, 0xBB] [] [])\<lparr>disclosed := True\<rparr>),
                Dump ((state_of Disclosed [0xAA, 0xBB] [] [])\<lparr>disclosed := True\<rparr>),
                Ack 4,
                Dump ((state_of Aborted [0xAA, 0xBB] [] [])\<lparr>disclosed := True\<rparr>),
                CancelTask 7, ShieldEnter 10, Unwatch 1, Unwatch 2, Unwatch 3,
                DeleteResultFiles [], ShieldExit],
       deque = [], cleaned = True\<rparr>)
   \<and> submissions ''discloseTaskResult''
         [GetTask 7,
          Submit ''discloseTaskResult'' (CallArgs 7 2 [[0xAA, 0xBB]]),
          Submit ''discloseTaskResult'' (CallArgs 7 2 [[0xAA, 0xBB]]),
          WaitReceipt [0xAB],
          Dump (state_of ResultUploaded [0xAA, 0xBB] [] []),
          Dump ((state_of Disclosed [0xAA, 0xBB] [] [])\<lparr>disclosed := True\<rparr>),
          Ack 3,
          WaitReceipt [0xAB],
          Dump ((state_of Disclosed [0xAA, 0xBB] [] [])\<lparr>disclosed := True\<rparr>),
          Dump ((state_of Disclosed [0xAA, 0xBB] [] [])\<lparr>disclosed := True\<rparr>),
          Ack 4,
          Dump ((state_of Aborted [0xAA, 0xBB] [] [])\<lparr>disclosed := True\<rparr>),
          CancelTask 7, ShieldEnter 10, Unwatch 1, Unwatch 2, Unwatch 3,
          DeleteResultFiles [], ShieldExit] = 2"
  by (simp add: run_def run_except_def run_try_def init_def init_exit_def load_state_def
      get_task_def deadline_path_def cancel_task_def drain_def cleanup_def terminal_def
      runner_of_def env_of_def cfg7_def state_of_def commitment_ready_co_def
      call_task_contract_method_co_def wait_and_clear_co_def acked_def settle_def
      cancel_tasks_def end_tasks_def state_context_exit_def supported_method_def
      submissions_def)

subsection \<open>What each handler submits\<close>

lemma submissions_append [simp]: "submissions m (a @ b) = submissions m a + submissions m b"
  by (simp add: submissions_def)

lemma submissions_simps [simp]:
  "submissions m [] = 0"
  "submissions m (x # t) = (if is_submit_of m x then 1 else 0) + submissions m t"
  by (simp_all add: submissions_def)

lemma subs_call:
  assumes "call_task_contract_method e m a w = (r, w')"
  shows "submissions m' (tr w') = submissions m' (tr w)
       + (if waiting_tx_method (st w) = [] \<and> waiting_tx_hash (st w) = []
             \<and> supported_method m \<and> m = m' then 1 else 0)"
    and "status (st w') = status (st w)" and "result (st w') = result (st w)"
    and "disclosed (st w') = disclosed (st w)" and "files (st w') = files (st w)"
    and "r = None \<Longrightarrow> waiting_tx_method (st w') = [] \<and> waiting_tx_hash (st w') = []"
    and "r \<noteq> None \<Longrightarrow> st w' = st w"
  using assms
  by (auto simp add: call_task_contract_method_def wait_and_clear_def state_context_exit_def
      split: if_splits sum.splits option.splits)

lemma subs_report:
  assumes a: "report_error e c w = (r, w')"
  shows "submissions m (tr w') = submissions m (tr w)
       + (if waiting_tx_method (st w) = [] \<and> waiting_tx_hash (st w) = []
             \<and> m = ''reportTaskError'' then 1 else 0)"
    and "status (st w') = Aborted" and "files (st w') = files (st w)"
proof -
  define w1 where "w1 = state_context_exit (w\<lparr>st := (st w)\<lparr>status := Aborted\<rparr>\<rparr>)"
  obtain r1 w2 where c: "call_task_contract_method e ''reportTaskError''
      (CallArgs (c_task_id c) (round_no (st w1)) []) w1 = (r1, w2)" by force
  from a c have w': "w' = w2"
    by (auto simp add: report_error_def Let_def w1_def split: option.splits if_splits)
  have w1: "tr w1 = tr w @ [Dump (st w1)]" "status (st w1) = Aborted"
    "waiting_tx_method (st w1) = waiting_tx_method (st w)"
    "waiting_tx_hash (st w1) = waiting_tx_hash (st w)" "files (st w1) = files (st w)"
    by (simp_all add: w1_def state_context_exit_def)
  show "submissions m (tr w') = submissions m (tr w)
       + (if waiting_tx_method (st w) = [] \<and> waiting_tx_hash (st w) = []
             \<and> m = ''reportTaskError'' then 1 else 0)"
    using subs_call(1) [OF c, of m] w1 by (simp add: w' supported_method_def)
  show "status (st w') = Aborted"
    using subs_call(2) [OF c] w1 by (simp add: w')
  show "files (st w') = files (st w)"
    using subs_call(5) [OF c] w1 by (simp add: w')
qed

text \<open>What \<open>result_ready\<close> does, case by case.\<close>

lemma result_ready_cases:
  assumes a: "result_ready e c hs fs w = (r, w')"
  obtains (blocked) "status (st w) \<noteq> Executing" "r = Blocked" "w' = w"
  | (skipped) "status (st w) = Executing" "result (st w) \<noteq> []" "r = Returned ()"
      "w' = state_context_exit (w\<lparr>st := (st w)\<lparr>status := ResultUploaded, files := fs\<rparr>\<rparr>)"
  | (uploaded) res cm nonce r1 w1 where "status (st w) = Executing" "result (st w) = []"
      "make_result_commitments e (tr w) hs = (res, cm, nonce)"
      "call_task_contract_method e ''submitTaskResultCommitment''
         (CallArgs (c_task_id c) (round_no (st w)) [cm, nonce]) w = (r1, w1)"
      "r1 = None \<or> (\<exists>y. r1 = Some y \<and> is_revert y \<and> \<not> str_in ''Task is aborted'' (reason y))"
      "r = Returned ()"
      "w' = state_context_exit
         (w1\<lparr>st := (st w1)\<lparr>result := res, status := ResultUploaded, files := fs\<rparr>\<rparr>)"
  | (aborted) res cm nonce y w1 r2 w2 where "status (st w) = Executing" "result (st w) = []"
      "make_result_commitments e (tr w) hs = (res, cm, nonce)"
      "call_task_contract_method e ''submitTaskResultCommitment''
         (CallArgs (c_task_id c) (round_no (st w)) [cm, nonce]) w = (Some y, w1)"
      "is_revert y" "str_in ''Task is aborted'' (reason y)"
      "report_error e c w1 = (r2, w2)"
      "r = (case r2 of None \<Rightarrow> Returned () | Some z \<Rightarrow> Raised z)"
      "w' = state_context_exit w2"
  | (raised) res cm nonce y w1 where "status (st w) = Executing" "result (st w) = []"
      "make_result_commitments e (tr w) hs = (res, cm, nonce)"
      "call_task_contract_method e ''submitTaskResultCommitment''
         (CallArgs (c_task_id c) (round_no (st w)) [cm, nonce]) w = (Some y, w1)"
      "\<not> is_revert y" "r = Raised y" "w' = state_context_exit w1"
proof -
  obtain res cm nonce where m: "make_result_commitments e (tr w) hs = (res, cm, nonce)"
    by (metis prod_cases3)
  obtain r1 w1 where c: "call_task_contract_method e ''submitTaskResultCommitment''
      (CallArgs (c_task_id c) (round_no (st w)) [cm, nonce]) w = (r1, w1)" by force
  obtain r2 w2 where p: "report_error e c w1 = (r2, w2)" by force
  show thesis
  proof (cases "status (st w) = Executing")
    case False
    with a have "r = Blocked" "w' = w"
      by (simp_all add: result_ready_def)
    then show thesis
      by (rule blocked [OF False])
  next
    case ex: True
    show thesis
    proof (cases "result (st w) = []")
      case False
      with a ex have "r = Returned ()"
        "w' = state_context_exit (w\<lparr>st := (st w)\<lparr>status := ResultUploaded, files := fs\<rparr>\<rparr>)"
        by (simp_all add: result_ready_def result_uploaded_def)
      then show thesis
        by (rule skipped [OF ex False])
    next
      case em: True
      have ok: thesis
        if "r1 = None \<or> (\<exists>y. r1 = Some y \<and> is_revert y \<and> \<not> str_in ''Task is aborted'' (reason y))"
      proof -
        from that a ex em m c have "r = Returned ()"
          "w' = state_context_exit
             (w1\<lparr>st := (st w1)\<lparr>result := res, status := ResultUploaded, files := fs\<rparr>\<rparr>)"
          by (auto simp add: result_ready_def result_uploaded_def)
        then show thesis
          by (rule uploaded [OF ex em m c that])
      qed
      show thesis
      proof (cases r1)
        case None
        then show thesis using ok by simp
      next
        case (Some y)
        note c' = c [unfolded Some]
        show thesis
        proof (cases "is_revert y")
          case False
          with a ex em m c Some have "r = Raised y" "w' = state_context_exit w1"
            by (simp_all add: result_ready_def)
          then show thesis
            by (rule raised [OF ex em m c' False])
        next
          case rv: True
          show thesis
          proof (cases "str_in ''Task is aborted'' (reason y)")
            case True
            with a ex em m c p Some rv
            have "r = (case r2 of None \<Rightarrow> Returned () | Some z \<Rightarrow> Raised z)"
              "w' = state_context_exit w2"
              by (simp_all add: result_ready_def lift_res_def split: option.splits)
            then show thesis
              by (rule aborted [OF ex em m c' rv True p])
          next
            case False
            with Some rv show thesis using ok by simp
          qed
        qed
      qed
    qed
  qed
qed

text \<open>
  C10. The claim: two deliveries of TaskResultReady give at most one submission of
  \<open>submitTaskResultCommitment\<close>, which is made only when the result is empty, and in
  either case the files of the event are recorded and the status is set to
  ResultUploaded. The last part fails when the submission reverts with ``Task is
  aborted'': the handler returns from inside the \<open>except\<close> clause, the status is Aborted and
  the files of the event are not recorded. The first part fails when the second
  handler passes its gate while the first awaits the contract call: the result is
  still empty, and both submit (the second conjunct: a runner whose cache entry has
  status Executing and no result receives the event twice, and the run holds two
  submissions; it ends with the deadline, no other event being sent).
\<close>

theorem aborted_commitment_records_no_files_counterexample:
  "result_ready (env_of (Some (TxRevertedError ''Task is aborted''))) cfg7 [''0xAA'']
      [''a.png''] (world_of (state_of Executing [] [] [])) =
     (Returned (),
      \<lparr>st = state_of Aborted [] [] [], cached = Some (state_of Aborted [] [] []),
       tr = [Submit ''submitTaskResultCommitment'' (CallArgs 7 2 [[0x01], [0x02]]),
             WaitReceipt [0xAB], Dump (state_of Aborted [] [] []),
             Submit ''reportTaskError'' (CallArgs 7 2 []), WaitReceipt [0xEE],
             Dump (state_of Aborted [] [] []), Dump (state_of Aborted [] [] [])]\<rparr>)
   \<and> status (state_of Aborted [] [] []) \<noteq> ResultUploaded
   \<and> files (state_of Aborted [] [] []) \<noteq> [''a.png'']
   \<and> run ((env_of None)\<lparr>schedule := [Receive, Receive, Resume 2, Resume 5, Resume 2, Resume 2,
          Resume 2, Resume 2, Resume 2, Resume 5, Resume 5, Resume 5, Resume 5, Resume 5]\<rparr>) cfg7
        (runner_of (Some (state_of Executing [] [] []))
           [(2, TaskResultReady 7 [''0xAA''] [''a.png'']),
            (5, TaskResultReady 7 [''0xAA''] [''a.png''])]) =
     (None,
      \<lparr>state = None,
       cache = Some ((state_of Aborted [0xAA, 0xBB] [] [])\<lparr>files := [''a.png'']\<rparr>),
       trace = [GetTask 7,
                Submit ''submitTaskResultCommitment'' (CallArgs 7 2 [[0x01], [0x02]]),
                Submit ''submitTaskResultCommitment'' (CallArgs 7 2 [[0x01], [0x02]]),
                WaitReceipt [0xAB],
                Dump (state_of Executing [] [] []),
                Dump ((state_of ResultUploaded [0xAA, 0xBB] [] [])\<lparr>files := [''a.png'']\<rparr>),
                Ack 2,
                WaitReceipt [0xAB],
                Dump ((state_of ResultUploaded [0xAA, 0xBB] [] [])\<lparr>files := [''a.png'']\<rparr>),
                Dump ((state_of ResultUploaded [0xAA, 0xBB] [] [])\<lparr>files := [''a.png'']\<rparr>),
                Ack 5,
                Dump ((state_of Aborted [0xAA, 0xBB] [] [])\<lparr>files := [''a.png'']\<rparr>),
                CancelTask 7, ShieldEnter 10, Unwatch 1, Unwatch 2, Unwatch 3,
                DeleteResultFiles [''a.png''], ShieldExit],
       deque = [], cleaned = True\<rparr>)"
  by (simp add: result_ready_def report_error_def call_task_contract_method_def
      wait_and_clear_def state_context_exit_def lift_res_def supported_method_def env_of_def
      world_of_def state_of_def cfg7_def
      run_def run_except_def run_try_def init_def init_exit_def load_state_def
      get_task_def deadline_path_def cancel_task_def drain_def cleanup_def terminal_def
      runner_of_def result_ready_co_def result_uploaded_co_def
      call_task_contract_method_co_def wait_and_clear_co_def acked_def settle_def
      cancel_tasks_def end_tasks_def)

text \<open>
  C10 as amended, for a handler that runs on its own (\<open>alone_result_ready\<close>): it submits
  \<open>submitTaskResultCommitment\<close> at most once, and only when the result is empty; when it
  returns, either the status is ResultUploaded and the files of the event are
  recorded (state and cache), or the submission has reverted with a reason that
  contains ``Task is aborted'', the status is Aborted and the files are what they
  were; and a handler of a further delivery that starts from there is blocked at its
  gate, so that it submits nothing.
\<close>

theorem result_ready_submits_once:
  "result_ready e c hs fs w = (r, w1) \<longrightarrow>
     submissions ''submitTaskResultCommitment'' (tr w1)
       \<le> submissions ''submitTaskResultCommitment'' (tr w) + 1
     \<and> (submissions ''submitTaskResultCommitment'' (tr w1)
           \<noteq> submissions ''submitTaskResultCommitment'' (tr w) \<longrightarrow> result (st w) = [])
     \<and> (r = Returned () \<longrightarrow>
          ((status (st w1) = ResultUploaded \<and> files (st w1) = fs \<and> cached w1 = Some (st w1))
           \<or> (status (st w1) = Aborted \<and> files (st w1) = files (st w) \<and> result (st w) = []
              \<and> (\<exists>res cm nonce y w0.
                    make_result_commitments e (tr w) hs = (res, cm, nonce)
                    \<and> call_task_contract_method e ''submitTaskResultCommitment''
                         (CallArgs (c_task_id c) (round_no (st w)) [cm, nonce]) w = (Some y, w0)
                    \<and> is_revert y \<and> str_in ''Task is aborted'' (reason y))))
          \<and> (\<forall>hs' fs'. result_ready e c hs' fs' w1 = (Blocked, w1)))"
proof
  let ?C = "''submitTaskResultCommitment''"
  assume a: "result_ready e c hs fs w = (r, w1)"
  have blocked: "result_ready e c hs' fs' w1 = (Blocked, w1)"
    if "status (st w1) = ResultUploaded \<or> status (st w1) = Aborted" for hs' fs'
    using that by (auto simp add: result_ready_def)
  from a show "submissions ?C (tr w1) \<le> submissions ?C (tr w) + 1
     \<and> (submissions ?C (tr w1) \<noteq> submissions ?C (tr w) \<longrightarrow> result (st w) = [])
     \<and> (r = Returned () \<longrightarrow>
          ((status (st w1) = ResultUploaded \<and> files (st w1) = fs \<and> cached w1 = Some (st w1))
           \<or> (status (st w1) = Aborted \<and> files (st w1) = files (st w) \<and> result (st w) = []
              \<and> (\<exists>res cm nonce y w0.
                    make_result_commitments e (tr w) hs = (res, cm, nonce)
                    \<and> call_task_contract_method e ?C
                         (CallArgs (c_task_id c) (round_no (st w)) [cm, nonce]) w = (Some y, w0)
                    \<and> is_revert y \<and> str_in ''Task is aborted'' (reason y))))
          \<and> (\<forall>hs' fs'. result_ready e c hs' fs' w1 = (Blocked, w1)))"
  proof (cases rule: result_ready_cases)
    case blocked
    then show ?thesis by simp
  next
    case skipped
    then show ?thesis using blocked by (simp add: state_context_exit_def)
  next
    case (uploaded res cm nonce r1 v1)
    note f = subs_call(1) [OF uploaded(4), of ?C]
    from uploaded(2,6,7) f show ?thesis using blocked by (simp add: state_context_exit_def)
  next
    case (aborted res cm nonce y v1 r2 v2)
    note f = subs_call(1) [OF aborted(4), of ?C] subs_call(5) [OF aborted(4)]
    note g = subs_report(1) [OF aborted(7), of ?C] subs_report(2,3) [OF aborted(7)]
    from g(2) aborted(9) have s: "status (st w1) = Aborted"
      by (simp add: state_context_exit_def)
    from f(2) g(3) aborted(9) have fl: "files (st w1) = files (st w)"
      by (simp add: state_context_exit_def)
    from f(1) g(1) aborted(9)
    have n: "submissions ?C (tr w1) \<le> submissions ?C (tr w) + 1"
      by (simp add: state_context_exit_def)
    from aborted(2,3,4,5,6)
    have ev: "\<exists>res cm nonce y w0.
                    make_result_commitments e (tr w) hs = (res, cm, nonce)
                    \<and> call_task_contract_method e ?C
                         (CallArgs (c_task_id c) (round_no (st w)) [cm, nonce]) w = (Some y, w0)
                    \<and> is_revert y \<and> str_in ''Task is aborted'' (reason y)"
      by blast
    from s fl n ev aborted(2) blocked show ?thesis by blast
  next
    case (raised res cm nonce y v1)
    note f = subs_call(1) [OF raised(4), of ?C]
    from raised(2,6,7) f show ?thesis by (simp add: state_context_exit_def)
  qed
qed

theorem result_ready_submits_once_witness:
  "result_ready (env_of None) cfg7 [''0xAA''] [''a.png''] (world_of (state_of Executing [] [] [])) =
     (Returned (),
      \<lparr>st = (state_of ResultUploaded [0xAA, 0xBB] [] [])\<lparr>files := [''a.png'']\<rparr>,
       cached = Some ((state_of ResultUploaded [0xAA, 0xBB] [] [])\<lparr>files := [''a.png'']\<rparr>),
       tr = [Submit ''submitTaskResultCommitment'' (CallArgs 7 2 [[0x01], [0x02]]),
             WaitReceipt [0xAB], Dump (state_of Executing [] [] []),
             Dump ((state_of ResultUploaded [0xAA, 0xBB] [] [])\<lparr>files := [''a.png'']\<rparr>)]\<rparr>)
   \<and> result_ready (env_of None) cfg7 [''0xAA''] [''a.png'']
        \<lparr>st = (state_of ResultUploaded [0xAA, 0xBB] [] [])\<lparr>files := [''a.png'']\<rparr>,
         cached = Some ((state_of ResultUploaded [0xAA, 0xBB] [] [])\<lparr>files := [''a.png'']\<rparr>),
         tr = [Submit ''submitTaskResultCommitment'' (CallArgs 7 2 [[0x01], [0x02]]),
               WaitReceipt [0xAB], Dump (state_of Executing [] [] []),
               Dump ((state_of ResultUploaded [0xAA, 0xBB] [] [])\<lparr>files := [''a.png'']\<rparr>)]\<rparr> =
     (Blocked,
      \<lparr>st = (state_of ResultUploaded [0xAA, 0xBB] [] [])\<lparr>files := [''a.png'']\<rparr>,
       cached = Some ((state_of ResultUploaded [0xAA, 0xBB] [] [])\<lparr>files := [''a.png'']\<rparr>),
       tr = [Submit ''submitTaskResultCommitment'' (CallArgs 7 2 [[0x01], [0x02]]),
             WaitReceipt [0xAB], Dump (state_of Executing [] [] []),
             Dump ((state_of ResultUploaded [0xAA, 0xBB] [] [])\<lparr>files := [''a.png'']\<rparr>)]\<rparr>)"
proof -
  let ?w = "world_of (state_of Executing [] [] [])"
  let ?w1 = "\<lparr>st = (state_of ResultUploaded [0xAA, 0xBB] [] [])\<lparr>files := [''a.png'']\<rparr>,
       cached = Some ((state_of ResultUploaded [0xAA, 0xBB] [] [])\<lparr>files := [''a.png'']\<rparr>),
       tr = [Submit ''submitTaskResultCommitment'' (CallArgs 7 2 [[0x01], [0x02]]),
             WaitReceipt [0xAB], Dump (state_of Executing [] [] []),
             Dump ((state_of ResultUploaded [0xAA, 0xBB] [] [])\<lparr>files := [''a.png'']\<rparr>)]\<rparr>"
  have a: "result_ready (env_of None) cfg7 [''0xAA''] [''a.png''] ?w = (Returned (), ?w1)"
    by (simp add: result_ready_def result_uploaded_def call_task_contract_method_def
        wait_and_clear_def state_context_exit_def supported_method_def env_of_def
        world_of_def state_of_def cfg7_def)
  from result_ready_submits_once [of "env_of None" cfg7 "[''0xAA'']" "[''a.png'']" ?w
      "Returned ()" ?w1] a
  have "result_ready (env_of None) cfg7 [''0xAA''] [''a.png''] ?w1 = (Blocked, ?w1)"
    by blast
  with a show ?thesis by simp
qed

end
